theory Spec2Isabelle
  imports Main "HOL-Library.AList"
begin

section \<open>JavaScript values used by the sources\<close>

text \<open>
  A request parameter, an object property or a class field that may be \<open>null\<close> or
  \<open>undefined\<close> is a \<open>string option\<close>. JavaScript's truthiness test on such a
  value (\<open>if (x)\<close>, \<open>!x\<close>, \<open>a || b\<close>) is false for null, undefined and the empty
  string.
\<close>

fun truthy :: "string option \<Rightarrow> bool" where
  "truthy None = False"
| "truthy (Some s) = (s \<noteq> [])"

text \<open>Decimal rendering of a non-negative number inside a template string.\<close>

definition digit_char :: "nat \<Rightarrow> char" where
  "digit_char d = ''0123456789'' ! d"

function show_nat :: "nat \<Rightarrow> string" where
  "show_nat n = (if n < 10 then [digit_char n] else show_nat (n div 10) @ [digit_char (n mod 10)])"
  by pat_completeness auto
termination
  by (relation "measure (\<lambda>n. n)") auto

declare show_nat.simps [simp del]

text \<open>\<open>Array.prototype.findIndex\<close>: the first index whose element satisfies the
  predicate; \<open>None\<close> stands for the result \<open>-1\<close>.\<close>

fun findIndex :: "('a \<Rightarrow> bool) \<Rightarrow> 'a list \<Rightarrow> nat option" where
  "findIndex p [] = None"
| "findIndex p (x # xs) =
     (if p x then Some 0 else (case findIndex p xs of None \<Rightarrow> None | Some i \<Rightarrow> Some (Suc i)))"


section \<open>Presence store and signaling endpoint (src/app/api/socket/route.js)\<close>

text \<open>An entry of \<open>room.users\<close>: \<open>{ id, sessionId, joinedAt }\<close>.\<close>

record member =
  id_user :: string
  sessionId :: string
  joinedAt :: nat

text \<open>A value of the \<open>userSessions\<close> map: \<open>{ userId, roomId, lastSeen }\<close>.\<close>

record session =
  userId :: string
  roomId :: string
  lastSeen :: nat

text \<open>
  The two module-level maps. \<open>rooms\<close> is only read and written by key.
  \<open>userSessions\<close> is iterated in insertion order by \<open>leave-room\<close> and by the sweep,
  so it is an association list in insertion order: \<open>Map.set\<close> is \<open>AList.update\<close> (an
  existing key keeps its place, a new key goes last), \<open>Map.get\<close> is \<open>map_of\<close>,
  \<open>Map.delete\<close> is \<open>AList.delete\<close>.
\<close>

record store =
  rooms :: "string \<rightharpoonup> member list"
  userSessions :: "(string \<times> session) list"

definition empty_store :: store where
  "empty_store = \<lparr> rooms = Map.empty, userSessions = [] \<rparr>"

text \<open>What the handler reads from its environment: \<open>Date.now()\<close> and the base-36
  rendering of \<open>Math.random()\<close> cut by \<open>substr(2, 9)\<close>.\<close>

record env =
  now :: nat
  random36 :: string

definition fiveMinutes :: nat where
  "fiveMinutes = 5 * 60 * 1000"

text \<open>Removing a user from a room: \<open>room.users = room.users.filter(...)\<close>, then the room
  is deleted when no user is left. Shared by the sweep and by \<open>leave-room\<close>.\<close>

definition remove_user :: "string \<Rightarrow> string \<Rightarrow> (string \<rightharpoonup> member list) \<Rightarrow> (string \<rightharpoonup> member list)" where
  "remove_user rid uid rs =
     (case rs rid of
        None \<Rightarrow> rs
      | Some us \<Rightarrow>
          (let us' = filter (\<lambda>user. id_user user \<noteq> uid) us
           in if us' = [] then rs(rid := None) else rs(rid \<mapsto> us')))"

text \<open>
  \<open>cleanupOldSessions\<close>: the loop over \<open>userSessions.entries()\<close>. The loop deletes
  only the entry it is visiting, so it visits exactly the entries present at its start,
  in order. The first argument is \<open>Date.now()\<close>, read once before the loop.
\<close>

fun cleanup_loop :: "nat \<Rightarrow> (string \<times> session) list \<Rightarrow> store \<Rightarrow> store" where
  "cleanup_loop t [] st = st"
| "cleanup_loop t ((sid, s) # rest) st =
     (if int t - int (lastSeen s) > int fiveMinutes
      then cleanup_loop t rest
             \<lparr> rooms = (if roomId s \<noteq> [] then remove_user (roomId s) (userId s) (rooms st) else rooms st),
               userSessions = AList.delete sid (userSessions st) \<rparr>
      else cleanup_loop t rest st)"

definition cleanupOldSessions :: "nat \<Rightarrow> store \<Rightarrow> store" where
  "cleanupOldSessions t st = cleanup_loop t (userSessions st) st"

text \<open>The body of a JSON response; the status is 200 unless the handler sets it.\<close>

datatype body =
    Error string
  | Joined string "string list"
  | Users "string list"
  | Success
  | Toggled string string "string list"

type_synonym response = "nat \<times> body"

definition newSessionId :: "env \<Rightarrow> string" where
  "newSessionId e = ''session_'' @ show_nat (now e) @ ''_'' @ random36 e"

definition join_room :: "env \<Rightarrow> string \<Rightarrow> string \<Rightarrow> store \<Rightarrow> response \<times> store" where
  "join_room e rid uid st =
     (let sid = newSessionId e;
          sessions' = AList.update sid \<lparr> userId = uid, roomId = rid, lastSeen = now e \<rparr> (userSessions st);
          room = (case rooms st rid of None \<Rightarrow> [] | Some us \<Rightarrow> us);
          entry = \<lparr> id_user = uid, sessionId = sid, joinedAt = now e \<rparr>;
          users' = (case findIndex (\<lambda>user. id_user user = uid) room of
                      Some existingUserIndex \<Rightarrow> room[existingUserIndex := entry]
                    | None \<Rightarrow> room @ [entry])
      in ((200, Joined sid (map id_user users')),
          \<lparr> rooms = (rooms st)(rid \<mapsto> users'), userSessions = sessions' \<rparr>))"

definition get_room_users :: "string \<Rightarrow> store \<Rightarrow> response" where
  "get_room_users rid st =
     (case rooms st rid of
        None \<Rightarrow> (200, Users [])
      | Some roomData \<Rightarrow> (200, Users (map id_user roomData)))"

text \<open>The \<open>for ... break\<close> loop of \<open>leave-room\<close>: the first session of that user in that
  room, in insertion order, is deleted and the loop stops.\<close>

fun delete_first_session :: "string \<Rightarrow> string \<Rightarrow> (string \<times> session) list \<Rightarrow> (string \<times> session) list" where
  "delete_first_session uid rid [] = []"
| "delete_first_session uid rid ((sid, s) # rest) =
     (if userId s = uid \<and> roomId s = rid then rest
      else (sid, s) # delete_first_session uid rid rest)"

definition leave_room :: "string \<Rightarrow> string \<Rightarrow> store \<Rightarrow> response \<times> store" where
  "leave_room rid uid st =
     ((200, Success),
      \<lparr> rooms = remove_user rid uid (rooms st),
        userSessions = delete_first_session uid rid (userSessions st) \<rparr>)"

text \<open>The \<open>ping\<close> case, written twice in the source (in \<open>GET\<close> and in \<open>POST\<close>) with the
  same text.\<close>

definition ping :: "env \<Rightarrow> string option \<Rightarrow> store \<Rightarrow> response \<times> store" where
  "ping e sessionId_param st =
     (case (if truthy sessionId_param then map_of (userSessions st) (the sessionId_param) else None) of
        Some s \<Rightarrow>
          ((200, Success),
           st\<lparr> userSessions := AList.update (the sessionId_param) (s\<lparr> lastSeen := now e \<rparr>) (userSessions st) \<rparr>)
      | None \<Rightarrow> ((404, Error ''Session not found''), st))"

text \<open>
  \<open>GET(request)\<close>: the four query parameters are \<open>searchParams.get(...)\<close>, \<open>None\<close>
  when the parameter is absent. No branch can throw on a store of this type, so the
  \<open>catch\<close> branch (status 500) is never taken.
\<close>

definition GET :: "env \<Rightarrow> string option \<Rightarrow> string option \<Rightarrow> string option \<Rightarrow> string option \<Rightarrow> store \<Rightarrow> response \<times> store" where
  "GET e action roomId_param userId_param sessionId_param st =
     (if action = Some ''join-room'' then
        (if \<not> truthy roomId_param \<or> \<not> truthy userId_param
         then ((400, Error ''Missing roomId or userId''), st)
         else join_room e (the roomId_param) (the userId_param) st)
      else if action = Some ''get-room-users'' then
        (if \<not> truthy roomId_param then ((400, Error ''Missing roomId''), st)
         else (get_room_users (the roomId_param) st, st))
      else if action = Some ''leave-room'' then
        (if \<not> truthy roomId_param \<or> \<not> truthy userId_param
         then ((400, Error ''Missing roomId or userId''), st)
         else leave_room (the roomId_param) (the userId_param) st)
      else if action = Some ''ping'' then ping e sessionId_param st
      else ((400, Error ''Invalid action''), st))"

text \<open>The parsed body of a \<open>POST\<close> request; \<open>request.json()\<close> rejects a body that is not
  JSON, which the handler's \<open>catch\<close> turns into status 500.\<close>

record post_body =
  p_action :: "string option"
  p_roomId :: "string option"
  p_userId :: "string option"
  p_sessionId :: "string option"

definition toggle :: "string \<Rightarrow> string option \<Rightarrow> string option \<Rightarrow> store \<Rightarrow> response" where
  "toggle event_name roomId_param userId_param st =
     (if \<not> truthy roomId_param \<or> \<not> truthy userId_param
      then (400, Error ''Missing roomId or userId'')
      else (case rooms st (the roomId_param) of
              Some room \<Rightarrow>
                (200, Toggled event_name (the userId_param)
                        (map id_user (filter (\<lambda>user. id_user user \<noteq> the userId_param) room)))
            | None \<Rightarrow> (404, Error ''Room not found'')))"

definition POST :: "env \<Rightarrow> post_body option \<Rightarrow> store \<Rightarrow> response \<times> store" where
  "POST e request st =
     (case request of
        None \<Rightarrow> ((500, Error ''Internal server error''), st)
      | Some b \<Rightarrow>
          (if p_action b = Some ''toggle-audio''
             then (toggle ''user-toggle-audio'' (p_roomId b) (p_userId b) st, st)
           else if p_action b = Some ''toggle-video''
             then (toggle ''user-toggle-video'' (p_roomId b) (p_userId b) st, st)
           else if p_action b = Some ''ping'' then ping e (p_sessionId b) st
           else ((400, Error ''Invalid action''), st)))"


text \<open>The ids of a room's users in array order, \<open>room.users.map((u) => u.id)\<close>; no
  ids when the room does not exist.\<close>

definition user_ids :: "store \<Rightarrow> string \<Rightarrow> string list" where
  "user_ids st rid = (case rooms st rid of None \<Rightarrow> [] | Some us \<Rightarrow> map id_user us)"

text \<open>The participants that have a session for room \<open>rid\<close> in the session table whose
  age at time \<open>t\<close> is within the five minutes of the sweep.\<close>

definition session_user_ids :: "nat \<Rightarrow> string \<Rightarrow> store \<Rightarrow> string set" where
  "session_user_ids t rid st =
     set (map (\<lambda>(sid, s). userId s)
            (filter (\<lambda>(sid, s). roomId s = rid \<and> \<not> (int t - int (lastSeen s) > int fiveMinutes))
               (userSessions st)))"

text \<open>Concrete environments for the scenarios below.\<close>

definition env_1000 :: env where
  "env_1000 = \<lparr> now = 1000, random36 = ''k3j9x0q2a'' \<rparr>"

definition env_2000 :: env where
  "env_2000 = \<lparr> now = 2000, random36 = ''p7m1c5d8z'' \<rparr>"

definition env_3000 :: env where
  "env_3000 = \<lparr> now = 3000, random36 = ''w4t6y2b9h'' \<rparr>"


definition env_240000 :: env where
  "env_240000 = \<lparr> now = 240000, random36 = ''p7m1c5d8z'' \<rparr>"

text \<open>\<open>u1\<close> joins \<open>r1\<close>, joins it again, and leaves it.\<close>

definition store_after_rejoin_leave :: store where
  "store_after_rejoin_leave =
     snd (GET env_3000 (Some ''leave-room'') (Some ''r1'') (Some ''u1'') None
       (snd (GET env_2000 (Some ''join-room'') (Some ''r1'') (Some ''u1'') None
         (snd (GET env_1000 (Some ''join-room'') (Some ''r1'') (Some ''u1'') None empty_store)))))"

text \<open>\<open>u1\<close> joins \<open>r1\<close> at time 1000, joins it again at time 240000, and the sweep
  runs at time 302000, when only the first session is older than five minutes.\<close>

definition store_after_rejoin_sweep :: store where
  "store_after_rejoin_sweep =
     cleanupOldSessions 302000
       (snd (GET env_240000 (Some ''join-room'') (Some ''r1'') (Some ''u1'') None
         (snd (GET env_1000 (Some ''join-room'') (Some ''r1'') (Some ''u1'') None empty_store))))"


text \<open>The store after \<open>u1\<close> has joined \<open>r1\<close> at time 1000.\<close>

definition store_with_u1 :: store where
  "store_with_u1 = snd (GET env_1000 (Some ''join-room'') (Some ''r1'') (Some ''u1'') None empty_store)"


section \<open>Resilient transport (class APISocket of src/store/socket.js)\<close>

text \<open>
  The events the transport synthesises with \<open>this.trigger(name, ...args)\<close>, each with
  the arguments it is triggered with, and the name under which listeners subscribe to it.
\<close>

datatype event =
    Connecting
  | Connect
  | JoinedRoom string
  | UserConnected string
  | UserLeave string
  | ConnectError string
  | ReconnectAttempt nat
  | ReconnectFailed
  | Disconnect string

fun event_name :: "event \<Rightarrow> string" where
  "event_name Connecting = ''connecting''"
| "event_name Connect = ''connect''"
| "event_name (JoinedRoom r) = ''joined-room''"
| "event_name (UserConnected u) = ''user-connected''"
| "event_name (UserLeave u) = ''user-leave''"
| "event_name (ConnectError m) = ''connect_error''"
| "event_name (ReconnectAttempt n) = ''reconnect_attempt''"
| "event_name ReconnectFailed = ''reconnect_failed''"
| "event_name (Disconnect reason) = ''disconnect''"

text \<open>The requests the transport sends to \<open>/api/socket\<close>.\<close>

datatype request =
    JoinRoomReq string string
  | PingReq "string option"
  | GetRoomUsersReq "string option"
  | LeaveRoomReq "string option" "string option"

text \<open>
  The fields of an \<open>APISocket\<close>. A callback is known by its identity (a number stands
  for the function object: \<open>indexOf\<close> compares by identity). \<open>pollingInterval\<close> tells
  whether the interval timer is set. \<open>lastKnownUsers\<close> is not set by the constructor, so
  it starts undefined. Four fields are the trace of what the object does to its
  surroundings: \<open>timeouts\<close> holds the delay of every \<open>setTimeout\<close> callback of
  \<open>handleReconnect\<close> that is scheduled and has not run, \<open>emitted\<close> the calls of
  \<open>trigger\<close>, \<open>invoked\<close> the calls of listeners, \<open>requests\<close> the requests sent.
\<close>

record APISocket =
  this_sessionId :: "string option"
  this_roomId :: "string option"
  this_userId :: "string option"
  listeners :: "string \<rightharpoonup> nat list"
  pollingInterval :: bool
  isConnected :: bool
  isConnecting :: bool
  connectionStatus :: string
  reconnectAttempts :: nat
  maxReconnectAttempts :: nat
  reconnectDelay :: nat
  lastKnownUsers :: "string list option"
  timeouts :: "nat list"
  emitted :: "event list"
  invoked :: "(nat \<times> event) list"
  requests :: "request list"

definition new_APISocket :: APISocket where
  "new_APISocket =
     \<lparr> this_sessionId = None, this_roomId = None, this_userId = None,
       listeners = Map.empty, pollingInterval = False,
       isConnected = False, isConnecting = False, connectionStatus = ''disconnected'',
       reconnectAttempts = 0, maxReconnectAttempts = 5, reconnectDelay = 1000,
       lastKnownUsers = None,
       timeouts = [], emitted = [], invoked = [], requests = [] \<rparr>"

text \<open>\<open>this.listeners.get(event)\<close>, with no callbacks when the event has no entry.\<close>

definition callbacks :: "APISocket \<Rightarrow> string \<Rightarrow> nat list" where
  "callbacks s name = (case listeners s name of None \<Rightarrow> [] | Some cs \<Rightarrow> cs)"

definition on :: "string \<Rightarrow> nat \<Rightarrow> APISocket \<Rightarrow> APISocket" where
  "on name callback s = s\<lparr> listeners := (listeners s)(name \<mapsto> callbacks s name @ [callback]) \<rparr>"

text \<open>\<open>off\<close>: \<open>indexOf\<close> finds the first registration of the callback and
  \<open>splice(index, 1)\<close> removes that one element.\<close>

definition off :: "string \<Rightarrow> nat \<Rightarrow> APISocket \<Rightarrow> APISocket" where
  "off name callback s =
     (case listeners s name of
        None \<Rightarrow> s
      | Some cs \<Rightarrow>
          (case findIndex (\<lambda>c. c = callback) cs of
             None \<Rightarrow> s
           | Some index \<Rightarrow> s\<lparr> listeners := (listeners s)(name \<mapsto> take index cs @ drop (Suc index) cs) \<rparr>))"

text \<open>\<open>trigger\<close> calls every callback registered for the event's name, in order; a
  callback that throws is caught and the next one runs.\<close>

definition trigger :: "event \<Rightarrow> APISocket \<Rightarrow> APISocket" where
  "trigger ev s =
     s\<lparr> emitted := emitted s @ [ev],
        invoked := invoked s @ map (\<lambda>callback. (callback, ev)) (callbacks s (event_name ev)) \<rparr>"

definition send_request :: "request \<Rightarrow> APISocket \<Rightarrow> APISocket" where
  "send_request q s = s\<lparr> requests := requests s @ [q] \<rparr>"

definition startPolling :: "APISocket \<Rightarrow> APISocket" where
  "startPolling s = (if pollingInterval s then s else s\<lparr> pollingInterval := True \<rparr>)"

definition stopPolling :: "APISocket \<Rightarrow> APISocket" where
  "stopPolling s = (if pollingInterval s then s\<lparr> pollingInterval := False \<rparr> else s)"

text \<open>What an awaited \<open>fetch(...)\<close> followed by \<open>response.json()\<close> gives: a rejection
  with a message, or the parsed data.\<close>

datatype 'a outcome = Rejected string | Resolved 'a

text \<open>The fields \<open>emit\<close> reads from the \<open>join-room\<close> response.\<close>

record join_data =
  jd_success :: bool
  jd_sessionId :: "string option"
  jd_roomUsers :: "string list option"
  jd_error :: "string option"

text \<open>
  \<open>emit("join-room", roomId, userId)\<close> is split at its \<open>await\<close>: the part that runs
  when \<open>emit\<close> is called, and the part that runs when the response has arrived (other
  callbacks of the object can run in between). The second part has the arguments
  \<open>roomId\<close> and \<open>userId\<close> of the call in its closure. The \<open>forEach\<close> over
  \<open>joinData.roomUsers\<close> is \<open>notify_existing\<close>.
\<close>

definition emit_join_room_call :: "string \<Rightarrow> string \<Rightarrow> APISocket \<Rightarrow> APISocket" where
  "emit_join_room_call rid uid s =
     send_request (JoinRoomReq rid uid)
       (trigger Connecting
          (s\<lparr> this_roomId := Some rid, this_userId := Some uid,
              isConnecting := True, connectionStatus := ''connecting'' \<rparr>))"

fun notify_existing :: "string list \<Rightarrow> APISocket \<Rightarrow> APISocket" where
  "notify_existing [] s = s"
| "notify_existing (u # us) s =
     notify_existing us (if Some u \<noteq> this_userId s then trigger (UserConnected u) s else s)"

definition emit_join_room_response :: "string \<Rightarrow> string \<Rightarrow> join_data outcome \<Rightarrow> APISocket \<Rightarrow> APISocket" where
  "emit_join_room_response rid uid res s =
     (case res of
        Rejected msg \<Rightarrow> trigger (ConnectError msg) s
      | Resolved joinData \<Rightarrow>
          (if jd_success joinData then
             (let s1 = s\<lparr> this_sessionId := jd_sessionId joinData, isConnected := True,
                          isConnecting := False, connectionStatus := ''connected'',
                          reconnectAttempts := 0 \<rparr>;
                  s2 = trigger (JoinedRoom rid) (trigger Connect (startPolling s1))
              in (case jd_roomUsers joinData of
                    None \<Rightarrow> s2
                  | Some us \<Rightarrow> notify_existing us s2))
           else
             trigger (ConnectError (if truthy (jd_error joinData) then the (jd_error joinData)
                                    else ''Failed to join room''))
               (s\<lparr> isConnecting := False, connectionStatus := ''error'' \<rparr>)))"

definition handleReconnect :: "APISocket \<Rightarrow> APISocket" where
  "handleReconnect s =
     (if reconnectAttempts s \<ge> maxReconnectAttempts s
      then trigger ReconnectFailed (s\<lparr> connectionStatus := ''error'' \<rparr>)
      else
        (let s1 = s\<lparr> reconnectAttempts := reconnectAttempts s + 1, isConnected := False,
                     connectionStatus := ''connecting'' \<rparr>;
             s2 = trigger (ReconnectAttempt (reconnectAttempts s1)) s1
         in s2\<lparr> timeouts := timeouts s2 @ [reconnectDelay s2 * reconnectAttempts s2] \<rparr>))"

text \<open>The callback of the \<open>setTimeout\<close> in \<open>handleReconnect\<close>, when the pending
  timeout number \<open>i\<close> runs. No method of the class removes a pending timeout.\<close>

definition timeout_fires :: "nat \<Rightarrow> APISocket \<Rightarrow> APISocket" where
  "timeout_fires i s =
     (if i < length (timeouts s) then
        (let s1 = s\<lparr> timeouts := take i (timeouts s) @ drop (Suc i) (timeouts s) \<rparr>
         in if truthy (this_roomId s1) \<and> truthy (this_userId s1)
            then emit_join_room_call (the (this_roomId s1)) (the (this_userId s1)) s1
            else s1)
      else s)"

text \<open>\<open>new Set(xs)\<close>, iterated by \<open>forEach\<close>: the elements in the order of their first
  occurrence.\<close>

fun new_Set :: "'a list \<Rightarrow> 'a list" where
  "new_Set [] = []"
| "new_Set (x # xs) = x # new_Set (filter (\<lambda>y. y \<noteq> x) xs)"

text \<open>The two \<open>forEach\<close> loops of a poll tick: one \<open>user-connected\<close> for each current
  user that was not known and is not the local user, then one \<open>user-leave\<close> for each known
  user that is no longer there and is not the local user.\<close>

fun find_new_users :: "string list \<Rightarrow> string list \<Rightarrow> APISocket \<Rightarrow> APISocket" where
  "find_new_users previousUsers [] s = s"
| "find_new_users previousUsers (u # us) s =
     find_new_users previousUsers us
       (if u \<notin> set previousUsers \<and> Some u \<noteq> this_userId s then trigger (UserConnected u) s else s)"

fun find_left_users :: "string list \<Rightarrow> string list \<Rightarrow> APISocket \<Rightarrow> APISocket" where
  "find_left_users currentUsers [] s = s"
| "find_left_users currentUsers (u # us) s =
     find_left_users currentUsers us
       (if u \<notin> set currentUsers \<and> Some u \<noteq> this_userId s then trigger (UserLeave u) s else s)"

text \<open>
  What one run of the interval callback meets: the ping is rejected, or the ping is
  answered (with any status) and the \<open>get-room-users\<close> request is rejected, or both
  are answered and the second answer has the field \<open>users\<close> (an array) or lacks it.
\<close>

datatype tick = PingRejected | FetchRejected | Answer "string list option"

definition poll_tick :: "APISocket \<Rightarrow> tick \<Rightarrow> APISocket" where
  "poll_tick s t =
     (if \<not> truthy (this_sessionId s) \<or> \<not> truthy (this_roomId s) then s
      else
        (let s1 = send_request (PingReq (this_sessionId s)) s in
         case t of
           PingRejected \<Rightarrow> handleReconnect s1
         | FetchRejected \<Rightarrow> handleReconnect (send_request (GetRoomUsersReq (this_roomId s1)) s1)
         | Answer None \<Rightarrow> send_request (GetRoomUsersReq (this_roomId s1)) s1
         | Answer (Some users) \<Rightarrow>
             (let s2 = send_request (GetRoomUsersReq (this_roomId s1)) s1;
                  currentUsers = new_Set users;
                  previousUsers = new_Set (case lastKnownUsers s2 of None \<Rightarrow> [] | Some known \<Rightarrow> known);
                  s3 = find_new_users previousUsers currentUsers s2;
                  s4 = find_left_users currentUsers previousUsers s3
              in s4\<lparr> lastKnownUsers := Some users \<rparr>)))"

text \<open>The interval timer runs its callback only while it is set.\<close>

definition interval_fires :: "APISocket \<Rightarrow> tick \<Rightarrow> APISocket" where
  "interval_fires s t = (if pollingInterval s then poll_tick s t else s)"

definition disconnect :: "APISocket \<Rightarrow> APISocket" where
  "disconnect s =
     (let s1 = trigger (Disconnect ''manual'')
                 ((stopPolling s)\<lparr> isConnected := False, isConnecting := False,
                                  connectionStatus := ''disconnected'' \<rparr>)
      in if truthy (this_roomId s1) \<and> truthy (this_userId s1)
         then send_request (LeaveRoomReq (this_roomId s1) (this_userId s1)) s1
         else s1)"

text \<open>A run of poll ticks, and the events these ticks trigger (the events the object
  had triggered before the run are dropped).\<close>

definition run_ticks :: "APISocket \<Rightarrow> tick list \<Rightarrow> APISocket" where
  "run_ticks s ts = foldl poll_tick s ts"

definition poll_events :: "APISocket \<Rightarrow> tick list \<Rightarrow> event list" where
  "poll_events s ts = drop (length (emitted s)) (emitted (run_ticks s ts))"

text \<open>The snapshot of the last answered tick that carried a user list, starting from a
  known one.\<close>

fun last_snapshot :: "string list option \<Rightarrow> tick list \<Rightarrow> string list option" where
  "last_snapshot known [] = known"
| "last_snapshot known (Answer (Some users) # ts) = last_snapshot (Some users) ts"
| "last_snapshot known (t # ts) = last_snapshot known ts"

text \<open>Replaying membership events on a list of members: \<open>user-connected\<close> adds the id,
  \<open>user-leave\<close> takes one occurrence of it away, any other event changes nothing. An id
  added twice shows as a duplicate.\<close>

fun apply_event :: "string list \<Rightarrow> event \<Rightarrow> string list" where
  "apply_event members (UserConnected u) = members @ [u]"
| "apply_event members (UserLeave u) = remove1 u members"
| "apply_event members ev = members"

definition replay :: "event list \<Rightarrow> string list" where
  "replay evs = foldl apply_event [] evs"


text \<open>The last known snapshot, as the poll tick reads it: \<open>this.lastKnownUsers || []\<close>.\<close>

definition known :: "APISocket \<Rightarrow> string list" where
  "known s = (case lastKnownUsers s of None \<Rightarrow> [] | Some k \<Rightarrow> k)"

text \<open>The callbacks one call of \<open>trigger\<close> invokes, in the order of the calls.\<close>

definition called_by_trigger :: "event \<Rightarrow> APISocket \<Rightarrow> nat list" where
  "called_by_trigger ev s = map fst (drop (length (invoked s)) (invoked (trigger ev s)))"

text \<open>A transport on which \<open>emit("join-room", "r1", "u1")\<close> has succeeded; the response
  lists \<open>u1\<close> alone.\<close>

definition socket_u1_joined :: APISocket where
  "socket_u1_joined =
     emit_join_room_response ''r1'' ''u1''
       (Resolved \<lparr> jd_success = True, jd_sessionId = Some ''session_1000_k3j9x0q2a'',
                   jd_roomUsers = Some [''u1''], jd_error = None \<rparr>)
       (emit_join_room_call ''r1'' ''u1'' new_APISocket)"

text \<open>The same transport after a poll tick whose ping was rejected: a reconnection
  attempt is scheduled.\<close>

definition socket_u1_reconnecting :: APISocket where
  "socket_u1_reconnecting = interval_fires socket_u1_joined PingRejected"

text \<open>Then \<open>disconnect()\<close> is called, the scheduled callback runs, and its
  \<open>join-room\<close> request succeeds with \<open>u1\<close> and \<open>u2\<close> in the room.\<close>

definition socket_u1_after_disconnect :: APISocket where
  "socket_u1_after_disconnect =
     emit_join_room_response ''r1'' ''u1''
       (Resolved \<lparr> jd_success = True, jd_sessionId = Some ''session_2000_p7m1c5d8z'',
                   jd_roomUsers = Some [''u1'', ''u2''], jd_error = None \<rparr>)
       (timeout_fires 0 (disconnect socket_u1_reconnecting))"


section \<open>Connection orchestrator (component Room, in src/app/api/socket/route.js)\<close>

text \<open>
  The state the \<open>Room\<close> component keeps about remote participants. \<open>calls\<close> lists the
  call objects the component has obtained from the peer-connection primitive, by
  \<open>peer.call(newUser, stream)\<close> or as an incoming call it answered; a call is known by
  its index. \<open>users\<close> (remote id to call) and \<open>players\<close> (remote id to player) are
  JavaScript objects used as tables: association lists in the order of the keys, where
  \<open>{...prev, [k]: v}\<close> is \<open>AList.update\<close> and \<open>delete copy[k]\<close> is
  \<open>AList.delete\<close>. A media stream is known by a number.
\<close>

record call =
  call_peer :: string
  outgoing :: bool
  call_closed :: bool

record player =
  url :: nat
  muted :: bool
  playing :: bool
  audioEnabled :: bool

record room_state =
  calls :: "call list"
  users :: "(string \<times> nat) list"
  players :: "(string \<times> player) list"

definition initial_room :: room_state where
  "initial_room = \<lparr> calls = [], users = [], players = [] \<rparr>"

text \<open>\<open>handleUserConnected(newUser)\<close>, the listener of \<open>user-connected\<close>: it places
  the call and attaches the three handlers below to it.\<close>

definition handleUserConnected :: "string \<Rightarrow> room_state \<Rightarrow> room_state" where
  "handleUserConnected newUser s =
     s\<lparr> calls := calls s @ [\<lparr> call_peer = newUser, outgoing = True, call_closed = False \<rparr>] \<rparr>"

text \<open>The handler of \<open>peer.on("call")\<close>: the incoming call is answered and gets the
  same three handlers.\<close>

definition handleIncomingCall :: "string \<Rightarrow> room_state \<Rightarrow> room_state" where
  "handleIncomingCall callerId s =
     s\<lparr> calls := calls s @ [\<lparr> call_peer = callerId, outgoing = False, call_closed = False \<rparr>] \<rparr>"

text \<open>The \<open>stream\<close>, \<open>close\<close> and \<open>error\<close> handlers of call number \<open>c\<close>; the remote
  id is the one in the handler's closure. A number that names no call has no handler.\<close>

definition call_on_stream :: "nat \<Rightarrow> nat \<Rightarrow> room_state \<Rightarrow> room_state" where
  "call_on_stream c incomingStream s =
     (if c < length (calls s) then
        s\<lparr> players := AList.update (call_peer (calls s ! c))
                         \<lparr> url = incomingStream, muted = False, playing = True, audioEnabled = True \<rparr>
                         (players s),
           users := AList.update (call_peer (calls s ! c)) c (users s) \<rparr>
      else s)"

definition call_on_close :: "nat \<Rightarrow> room_state \<Rightarrow> room_state" where
  "call_on_close c s =
     (if c < length (calls s) then
        s\<lparr> players := AList.delete (call_peer (calls s ! c)) (players s),
           users := AList.delete (call_peer (calls s ! c)) (users s) \<rparr>
      else s)"

definition call_on_error :: "nat \<Rightarrow> room_state \<Rightarrow> room_state" where
  "call_on_error c s = call_on_close c s"

text \<open>\<open>handleUserLeave(userId)\<close>, the listener of \<open>user-leave\<close>: the call in
  \<open>users[userId]\<close>, if there is one, is closed, and both entries are deleted.\<close>

definition handleUserLeave :: "string \<Rightarrow> room_state \<Rightarrow> room_state" where
  "handleUserLeave uid s =
     (let cs = (case map_of (users s) uid of
                  None \<Rightarrow> calls s
                | Some c \<Rightarrow> (if c < length (calls s)
                             then (calls s)[c := (calls s ! c)\<lparr> call_closed := True \<rparr>]
                             else calls s))
      in \<lparr> calls = cs, users = AList.delete uid (users s), players = AList.delete uid (players s) \<rparr>)"

text \<open>What can happen to the component, and a run of such happenings.\<close>

datatype room_event =
    OnUserConnected string
  | OnIncomingCall string
  | OnStream nat nat
  | OnClose nat
  | OnError nat
  | OnUserLeave string

fun room_step :: "room_state \<Rightarrow> room_event \<Rightarrow> room_state" where
  "room_step s (OnUserConnected u) = handleUserConnected u s"
| "room_step s (OnIncomingCall u) = handleIncomingCall u s"
| "room_step s (OnStream c strm) = call_on_stream c strm s"
| "room_step s (OnClose c) = call_on_close c s"
| "room_step s (OnError c) = call_on_error c s"
| "room_step s (OnUserLeave u) = handleUserLeave u s"

definition run_room :: "room_event list \<Rightarrow> room_state" where
  "run_room evs = foldl room_step initial_room evs"

text \<open>The transport's events reach the component through
  \<open>socket.on("user-connected", handleUserConnected)\<close> and
  \<open>socket.on("user-leave", handleUserLeave)\<close>.\<close>

fun deliver :: "room_state \<Rightarrow> event \<Rightarrow> room_state" where
  "deliver s (UserConnected u) = handleUserConnected u s"
| "deliver s (UserLeave u) = handleUserLeave u s"
| "deliver s ev = s"

text \<open>The outgoing calls to a remote id among the calls of a state.\<close>

definition outgoing_calls_to :: "string \<Rightarrow> room_state \<Rightarrow> call list" where
  "outgoing_calls_to u s = filter (\<lambda>c. call_peer c = u \<and> outgoing c) (calls s)"

text \<open>The transport of \<open>u2\<close>, which joins \<open>r1\<close> when \<open>u1\<close> is in it, and then runs its
  first poll tick, answered with the same two users.\<close>

definition socket_u2_first_tick :: APISocket where
  "socket_u2_first_tick =
     interval_fires
       (emit_join_room_response ''r1'' ''u2''
          (Resolved \<lparr> jd_success = True, jd_sessionId = Some ''session_2000_p7m1c5d8z'',
                      jd_roomUsers = Some [''u1'', ''u2''], jd_error = None \<rparr>)
          (emit_join_room_call ''r1'' ''u2'' new_APISocket))
       (Answer (Some [''u1'', ''u2'']))"


section \<open>Message channel manager (hook useChat, src/unnamed/part_000)\<close>

text \<open>
  JavaScript compares two strings with \<open><\<close> and \<open>>\<close> code unit by code unit; a proper
  prefix is the smaller string. Participant ids are strings of ASCII characters, one
  \<open>char\<close> per code unit.
\<close>

fun js_string_lt :: "string \<Rightarrow> string \<Rightarrow> bool" where
  "js_string_lt [] [] = False"
| "js_string_lt [] (y # ys) = True"
| "js_string_lt (x # xs) [] = False"
| "js_string_lt (x # xs) (y # ys) =
     (if (of_char x :: nat) < of_char y then True
      else if (of_char y :: nat) < of_char x then False
      else js_string_lt xs ys)"

text \<open>\<open>const shouldInitiate = myId > peerId\<close>, in the effect that sets up data
  channels.\<close>

definition shouldInitiate :: "string \<Rightarrow> string \<Rightarrow> bool" where
  "shouldInitiate myId peerId = js_string_lt peerId myId"

text \<open>
  \<open>String.prototype.trim\<close> removes white space and line terminators at both ends. A
  \<open>char\<close> stands for a code unit below 256; the code units below 256 that \<open>trim\<close>
  removes are tab (9), line feed (10), vertical tab (11), form feed (12), carriage
  return (13), space (32) and no-break space (160). The other code units it removes
  (U+1680, U+2000 to U+200A, U+2028, U+2029, U+202F, U+205F, U+3000, U+FEFF) are all
  above 255.
\<close>

definition is_space :: "char \<Rightarrow> bool" where
  "is_space c = (of_char c \<in> {9, 10, 11, 12, 13, 32, 160 :: nat})"

definition trim :: "string \<Rightarrow> string" where
  "trim s = rev (dropWhile is_space (rev (dropWhile is_space s)))"

text \<open>An object handed to \<open>addMessage\<close>: the message \<open>sendMessage\<close> builds, or the data
  parsed from a channel. A property that is absent or null is \<open>None\<close>.\<close>

record message =
  m_id :: "string option"
  m_text :: "string option"
  m_senderId :: "string option"
  m_senderName :: "string option"
  m_timestamp :: "string option"
  m_type :: "string option"

text \<open>An entry of the \<open>messages\<close> state.\<close>

record ChatMessage =
  msg_id :: string
  msg_text :: "string option"
  msg_senderId :: "string option"
  msg_senderName :: "string option"
  msg_timestamp :: string
  msg_isOwn :: bool

text \<open>What the hook reads from its environment: \<open>Date.now()\<close>, \<open>Math.random()\<close> as a
  template string prints it, and \<open>new Date().toISOString()\<close>.\<close>

record clock =
  date_now :: nat
  math_random :: string
  iso_string :: string

definition addMessage :: "clock \<Rightarrow> string \<Rightarrow> message \<Rightarrow> ChatMessage list \<Rightarrow> ChatMessage list" where
  "addMessage c myId message prev =
     (let newMessage =
            \<lparr> msg_id = (if truthy (m_id message) then the (m_id message)
                        else show_nat (date_now c) @ ''-'' @ math_random c),
              msg_text = m_text message,
              msg_senderId = m_senderId message,
              msg_senderName = (if truthy (m_senderName message) then m_senderName message
                                else m_senderId message),
              msg_timestamp = (if truthy (m_timestamp message) then the (m_timestamp message)
                               else iso_string c),
              msg_isOwn = (m_senderId message = Some myId) \<rparr>;
          exists = list_ex (\<lambda>msg. msg_id msg = msg_id newMessage) prev
      in if exists then prev else prev @ [newMessage])"

text \<open>A data channel: its \<open>readyState\<close>, whether its \<open>send\<close> throws, and what has been
  written to it (the message stands for its JSON text).\<close>

datatype ready_state = ChannelConnecting | ChannelOpen | ChannelClosing | ChannelClosed

record channel =
  readyState :: ready_state
  send_throws :: bool
  written :: "message list"

text \<open>The state of the hook: the message log and the \<open>dataChannels\<close> object, peer id to
  channel, in the order of \<open>Object.entries\<close>.\<close>

record chat =
  messages :: "ChatMessage list"
  dataChannels :: "(string \<times> channel) list"

text \<open>The \<open>forEach\<close> of \<open>sendMessage\<close>: the count of channels written to, and the
  channels afterwards.\<close>

fun send_to_channels :: "message \<Rightarrow> (string \<times> channel) list \<Rightarrow> nat \<times> (string \<times> channel) list" where
  "send_to_channels message [] = (0, [])"
| "send_to_channels message ((peerId, ch) # rest) =
     (let (sentCount, rest') = send_to_channels message rest
      in if readyState ch = ChannelOpen then
           (if send_throws ch then (sentCount, (peerId, ch) # rest')
            else (sentCount + 1, (peerId, ch\<lparr> written := written ch @ [message] \<rparr>) # rest'))
         else (sentCount, (peerId, ch) # rest'))"

definition outgoing_message :: "clock \<Rightarrow> string \<Rightarrow> string \<Rightarrow> message" where
  "outgoing_message c myId messageText =
     \<lparr> m_id = Some (myId @ ''-'' @ show_nat (date_now c) @ ''-'' @ math_random c),
       m_text = Some (trim messageText),
       m_senderId = Some myId,
       m_senderName = Some myId,
       m_timestamp = Some (iso_string c),
       m_type = Some ''chat-message'' \<rparr>"

definition sendMessage :: "clock \<Rightarrow> string \<Rightarrow> string \<Rightarrow> chat \<Rightarrow> bool \<times> chat" where
  "sendMessage c myId messageText st =
     (if messageText = [] \<or> trim messageText = [] then (False, st)
      else
        (let message = outgoing_message c myId messageText;
             (sentCount, channels') = send_to_channels message (dataChannels st)
         in (sentCount > 0,
             \<lparr> messages = addMessage c myId message (messages st), dataChannels = channels' \<rparr>)))"

text \<open>What \<open>JSON.parse(event.data)\<close> gives in \<open>handleIncomingMessage\<close>: it throws (or the
  value has no properties to read), or it is an object with some of the properties of a
  message.\<close>

datatype payload = Unparsable | Parsed message

definition handleIncomingMessage :: "clock \<Rightarrow> string \<Rightarrow> payload \<Rightarrow> ChatMessage list \<Rightarrow> ChatMessage list" where
  "handleIncomingMessage c myId p prev =
     (case p of
        Unparsable \<Rightarrow> prev
      | Parsed data \<Rightarrow>
          (if m_type data = Some ''chat-message'' then
             (if truthy (m_senderId data) \<and> truthy (m_text data) \<and> truthy (m_id data)
              then addMessage c myId data prev else prev)
           else prev))"


text \<open>Concrete values for the scenarios of the message channel manager.\<close>

definition clock_1000 :: clock where
  "clock_1000 = \<lparr> date_now = 1000, math_random = ''0.5'', iso_string = ''2024-01-01T00:00:00.000Z'' \<rparr>"


definition chat_with_open_channel :: chat where
  "chat_with_open_channel =
     \<lparr> messages = [],
       dataChannels =
         [(''u2'', \<lparr> readyState = ChannelOpen, send_throws = False, written = [] \<rparr>),
          (''u3'', \<lparr> readyState = ChannelClosing, send_throws = False, written = [] \<rparr>)] \<rparr>"

definition hello_from_u2 :: message where
  "hello_from_u2 =
     \<lparr> m_id = Some ''u2-1000-0.25'', m_text = Some ''hello'', m_senderId = Some ''u2'',
       m_senderName = Some ''u2'', m_timestamp = Some ''2024-01-01T00:00:00.000Z'',
       m_type = Some ''chat-message'' \<rparr>"


section \<open>Facts about the presence store\<close>

lemma show_nat_1000: "show_nat 1000 = ''1000''"
  by (simp add: show_nat.simps digit_char_def)

lemma show_nat_2000: "show_nat 2000 = ''2000''"
  by (simp add: show_nat.simps digit_char_def)

lemma newSessionId_env_1000: "newSessionId env_1000 = ''session_1000_k3j9x0q2a''"
  by (simp add: newSessionId_def env_1000_def show_nat_1000)

lemma newSessionId_env_2000: "newSessionId env_2000 = ''session_2000_p7m1c5d8z''"
  by (simp add: newSessionId_def env_2000_def show_nat_2000)

lemma findIndex_None_iff: "findIndex p xs = None \<longleftrightarrow> (\<forall>x\<in>set xs. \<not> p x)"
  by (induction xs) (auto split: option.splits)

lemma findIndex_Some_mem: "findIndex p xs = Some i \<Longrightarrow> \<exists>x\<in>set xs. p x"
  by (metis findIndex_None_iff option.distinct(1))

lemma findIndex_replace_keeps_ids:
  "findIndex (\<lambda>m. id_user m = u) xs = Some i \<Longrightarrow> id_user y = u
   \<Longrightarrow> map id_user (xs[i := y]) = map id_user xs"
proof (induction xs arbitrary: i)
  case Nil
  then show ?case by simp
next
  case (Cons x xs)
  then show ?case by (auto split: if_splits option.splits)
qed

lemma get_room_users_user_ids: "get_room_users rid st = (200, Users (user_ids st rid))"
  by (simp add: get_room_users_def user_ids_def split: option.splits)

lemma join_room_response:
  "fst (join_room e rid uid st) =
     (200, Joined (newSessionId e)
        (if uid \<in> set (user_ids st rid) then user_ids st rid else user_ids st rid @ [uid]))"
proof -
  define room where "room = (case rooms st rid of None \<Rightarrow> [] | Some us \<Rightarrow> us)"
  have ids: "user_ids st rid = map id_user room"
    by (simp add: user_ids_def room_def split: option.splits)
  show ?thesis
  proof (cases "findIndex (\<lambda>user. id_user user = uid) room")
    case None
    then have "uid \<notin> set (map id_user room)"
      by (auto simp: findIndex_None_iff)
    with None show ?thesis
      by (simp add: join_room_def Let_def ids room_def[symmetric])
  next
    case (Some i)
    from findIndex_Some_mem[OF Some] have "uid \<in> set (map id_user room)"
      by auto
    with Some findIndex_replace_keeps_ids[OF Some] show ?thesis
      by (simp add: join_room_def Let_def ids room_def[symmetric])
  qed
qed

lemma join_room_response_is_user_ids:
  "fst (join_room e rid uid st) =
     (200, Joined (newSessionId e) (user_ids (snd (join_room e rid uid st)) rid))"
  by (simp add: join_room_def Let_def user_ids_def)

lemma join_room_user_ids:
  "user_ids (snd (join_room e rid uid st)) rid =
     (if uid \<in> set (user_ids st rid) then user_ids st rid else user_ids st rid @ [uid])"
  using join_room_response[of e rid uid st] join_room_response_is_user_ids[of e rid uid st]
  by simp

lemma delete_first_session_keeps_later:
  "userId s = uid \<Longrightarrow> roomId s = rid
   \<Longrightarrow> b \<in> set (delete_first_session uid rid (xs @ [(k, s), b]))"
  by (induction xs) auto

lemma update_fresh: "k \<notin> fst ` set xs \<Longrightarrow> AList.update k v xs = xs @ [(k, v)]"
  by (induction xs) auto

lemma remove_user_not_member:
  "uid \<notin> set (case remove_user rid uid rs rid of None \<Rightarrow> [] | Some us \<Rightarrow> map id_user us)"
  by (auto simp: remove_user_def Let_def split: option.splits)

lemma ping_unknown_session_is_404:
  "map_of (userSessions st) s = None \<Longrightarrow>
   GET e (Some ''ping'') r u (Some s) st = ((404, Error ''Session not found''), st)"
  by (simp add: GET_def ping_def)


section \<open>Claims about the signaling endpoint\<close>

text \<open>
  Claim C2, as the code has it. The \<open>roomUsers\<close> field of a successful \<open>join-room\<close>
  response lists every member of the room after the join, the joining participant
  included: the ids that were in the room before, in their order, with the joiner kept at
  its place on a rejoin and appended otherwise. It is the very list \<open>get-room-users\<close>
  reads after the join, and the ids in it other than the joiner's are exactly the ids
  that were in the room before.
\<close>

theorem join_room_returns_all_members:
  assumes "truthy r" and "truthy u"
  shows "fst (GET e (Some ''join-room'') r u sid st) =
           (200, Joined (newSessionId e)
              (if the u \<in> set (user_ids st (the r)) then user_ids st (the r)
               else user_ids st (the r) @ [the u]))
         \<and> fst (GET e (Some ''join-room'') r u sid st) =
           (200, Joined (newSessionId e)
              (user_ids (snd (GET e (Some ''join-room'') r u sid st)) (the r)))
         \<and> filter (\<lambda>x. x \<noteq> the u)
              (user_ids (snd (GET e (Some ''join-room'') r u sid st)) (the r)) =
            filter (\<lambda>x. x \<noteq> the u) (user_ids st (the r))"
proof -
  from assms have G: "GET e (Some ''join-room'') r u sid st = join_room e (the r) (the u) st"
    by (simp add: GET_def)
  show ?thesis
    unfolding G
    using join_room_response[of e "the r" "the u" st]
      join_room_response_is_user_ids[of e "the r" "the u" st]
      join_room_user_ids[of e "the r" "the u" st]
    by (auto simp: filter_id_conv)
qed

text \<open>The theorem at the spec's scenario: \<open>u2\<close> joins room \<open>r1\<close>, which holds \<open>u1\<close>.\<close>

theorem join_room_returns_all_members_witness:
  "truthy (Some ''r1'') \<and> truthy (Some ''u2'')
   \<and> fst (GET env_2000 (Some ''join-room'') (Some ''r1'') (Some ''u2'') None
        (snd (GET env_1000 (Some ''join-room'') (Some ''r1'') (Some ''u1'') None empty_store)))
     = (200, Joined ''session_2000_p7m1c5d8z'' [''u1'', ''u2''])"
proof -
  have t: "truthy (Some ''r1'')" "truthy (Some ''u2'')"
    by simp_all
  have ids: "user_ids (snd (GET env_1000 (Some ''join-room'') (Some ''r1'') (Some ''u1'') None empty_store)) ''r1'' = [''u1'']"
    by (simp add: GET_def join_room_def Let_def empty_store_def user_ids_def)
  show ?thesis
    using join_room_returns_all_members[OF t, of env_2000 None
        "snd (GET env_1000 (Some ''join-room'') (Some ''r1'') (Some ''u1'') None empty_store)"]
    by (simp add: ids newSessionId_env_2000)
qed

text \<open>
  Claim C2 as the spec states it fails: the first participant joining the empty room
  \<open>r1\<close> receives \<open>[u1]\<close>, not the empty list, and \<open>u2\<close> joining after it does not
  receive \<open>[u1]\<close> (it receives \<open>[u1, u2]\<close>).
\<close>

theorem first_join_room_users_counterexample:
  "fst (GET env_1000 (Some ''join-room'') (Some ''r1'') (Some ''u1'') None empty_store)
     = (200, Joined ''session_1000_k3j9x0q2a'' [''u1''])
   \<and> fst (GET env_1000 (Some ''join-room'') (Some ''r1'') (Some ''u1'') None empty_store)
     \<noteq> (200, Joined ''session_1000_k3j9x0q2a'' [])
   \<and> fst (GET env_2000 (Some ''join-room'') (Some ''r1'') (Some ''u2'') None
        (snd (GET env_1000 (Some ''join-room'') (Some ''r1'') (Some ''u1'') None empty_store)))
     \<noteq> (200, Joined ''session_2000_p7m1c5d8z'' [''u1''])"
  by (simp add: GET_def join_room_def Let_def empty_store_def newSessionId_env_1000 newSessionId_env_2000)

text \<open>
  Claim C7, as the code has it. The handlers that need a room id or a user id answer
  status 400 when one is missing (\<open>join-room\<close>, \<open>leave-room\<close>, \<open>get-room-users\<close>,
  \<open>toggle-audio\<close>, \<open>toggle-video\<close>). \<open>ping\<close> makes no such difference: it answers
  status 404 with \<open>Session not found\<close> when the session id is absent or empty and
  when it is unknown, and succeeds when the session is known. The toggle actions answer
  404 for an unknown room.
\<close>

theorem handler_statuses:
  "(\<not> truthy sid \<longrightarrow>
      GET e (Some ''ping'') r u sid st = ((404, Error ''Session not found''), st)
      \<and> POST e (Some \<lparr> p_action = Some ''ping'', p_roomId = r, p_userId = u, p_sessionId = sid \<rparr>) st
          = ((404, Error ''Session not found''), st))
   \<and> (truthy sid \<and> map_of (userSessions st) (the sid) = None \<longrightarrow>
      GET e (Some ''ping'') r u sid st = ((404, Error ''Session not found''), st)
      \<and> POST e (Some \<lparr> p_action = Some ''ping'', p_roomId = r, p_userId = u, p_sessionId = sid \<rparr>) st
          = ((404, Error ''Session not found''), st))
   \<and> (truthy sid \<and> map_of (userSessions st) (the sid) \<noteq> None \<longrightarrow>
      fst (GET e (Some ''ping'') r u sid st) = (200, Success)
      \<and> fst (POST e (Some \<lparr> p_action = Some ''ping'', p_roomId = r, p_userId = u, p_sessionId = sid \<rparr>) st)
          = (200, Success))
   \<and> (\<not> truthy r \<or> \<not> truthy u \<longrightarrow>
      GET e (Some ''join-room'') r u sid st = ((400, Error ''Missing roomId or userId''), st)
      \<and> GET e (Some ''leave-room'') r u sid st = ((400, Error ''Missing roomId or userId''), st)
      \<and> POST e (Some \<lparr> p_action = Some ''toggle-audio'', p_roomId = r, p_userId = u, p_sessionId = sid \<rparr>) st
          = ((400, Error ''Missing roomId or userId''), st)
      \<and> POST e (Some \<lparr> p_action = Some ''toggle-video'', p_roomId = r, p_userId = u, p_sessionId = sid \<rparr>) st
          = ((400, Error ''Missing roomId or userId''), st))
   \<and> (\<not> truthy r \<longrightarrow>
      GET e (Some ''get-room-users'') r u sid st = ((400, Error ''Missing roomId''), st))
   \<and> (truthy r \<and> truthy u \<and> rooms st (the r) = None \<longrightarrow>
      POST e (Some \<lparr> p_action = Some ''toggle-audio'', p_roomId = r, p_userId = u, p_sessionId = sid \<rparr>) st
          = ((404, Error ''Room not found''), st)
      \<and> POST e (Some \<lparr> p_action = Some ''toggle-video'', p_roomId = r, p_userId = u, p_sessionId = sid \<rparr>) st
          = ((404, Error ''Room not found''), st))"
  by (auto simp: GET_def POST_def ping_def toggle_def)

lemma store_with_u1_sessions:
  "userSessions store_with_u1 =
     [(''session_1000_k3j9x0q2a'', \<lparr> userId = ''u1'', roomId = ''r1'', lastSeen = 1000 \<rparr>)]"
  by (simp add: store_with_u1_def GET_def join_room_def Let_def empty_store_def newSessionId_env_1000)
     (simp add: env_1000_def)

text \<open>The theorem on the store that holds the session of \<open>u1\<close> in \<open>r1\<close>.\<close>

theorem handler_statuses_witness:
  "GET env_2000 (Some ''ping'') None None None store_with_u1
      = ((404, Error ''Session not found''), store_with_u1)
   \<and> GET env_2000 (Some ''ping'') None None (Some ''session_7_zzzzzzzzz'') store_with_u1
      = ((404, Error ''Session not found''), store_with_u1)
   \<and> fst (GET env_2000 (Some ''ping'') None None (Some ''session_1000_k3j9x0q2a'') store_with_u1)
      = (200, Success)
   \<and> GET env_2000 (Some ''join-room'') (Some ''r1'') None None store_with_u1
      = ((400, Error ''Missing roomId or userId''), store_with_u1)
   \<and> GET env_2000 (Some ''get-room-users'') None None None store_with_u1
      = ((400, Error ''Missing roomId''), store_with_u1)
   \<and> POST env_2000 (Some \<lparr> p_action = Some ''toggle-audio'', p_roomId = Some ''r9'',
                            p_userId = Some ''u1'', p_sessionId = None \<rparr>) store_with_u1
      = ((404, Error ''Room not found''), store_with_u1)"
proof -
  have r9: "rooms store_with_u1 ''r9'' = None"
    by (simp add: store_with_u1_def GET_def join_room_def Let_def empty_store_def)
  show ?thesis
    using handler_statuses[of None env_2000 None None store_with_u1]
      handler_statuses[of "Some ''session_7_zzzzzzzzz''" env_2000 None None store_with_u1]
      handler_statuses[of "Some ''session_1000_k3j9x0q2a''" env_2000 None None store_with_u1]
      handler_statuses[of None env_2000 "Some ''r1''" None store_with_u1]
      handler_statuses[of None env_2000 "Some ''r9''" "Some ''u1''" store_with_u1]
    by (simp add: store_with_u1_sessions r9)
qed

text \<open>
  Claim C7 as the spec states it fails: the request \<open>?action=ping\<close> with no
  \<open>sessionId\<close> is answered with status 404, not with 400, by \<open>GET\<close> and by
  \<open>POST\<close>.
\<close>

theorem ping_without_session_id_counterexample:
  "fst (fst (GET env_1000 (Some ''ping'') None None None empty_store)) = 404
   \<and> fst (fst (GET env_1000 (Some ''ping'') None None None empty_store)) \<noteq> 400
   \<and> fst (fst (POST env_1000 (Some \<lparr> p_action = Some ''ping'', p_roomId = None, p_userId = None,
                                      p_sessionId = None \<rparr>) empty_store)) \<noteq> 400"
  by (simp add: GET_def POST_def ping_def)

text \<open>
  Claim C4, where the code departs from it: a participant joins a room twice (a rejoin;
  the two session ids are new and differ) and then leaves. \<open>join-room\<close> does not delete
  the session of the member entry it replaces, and \<open>leave-room\<close> deletes one session
  only, so afterwards the participant is not among the room's users while the session
  table still holds a session of that participant for that room, not older than five
  minutes at any time \<open>t\<close> within five minutes of the second join.
\<close>

theorem rejoin_then_leave_keeps_a_session:
  assumes "truthy r" and "truthy u"
    and "newSessionId e1 \<notin> fst ` set (userSessions st)"
    and "newSessionId e2 \<notin> fst ` set (userSessions st)"
    and "newSessionId e1 \<noteq> newSessionId e2"
    and "\<not> (int t - int (now e2) > int fiveMinutes)"
  shows "the u \<notin> set (user_ids
            (snd (GET e3 (Some ''leave-room'') r u None
              (snd (GET e2 (Some ''join-room'') r u None
                (snd (GET e1 (Some ''join-room'') r u None st)))))) (the r))
       \<and> the u \<in> session_user_ids t (the r)
            (snd (GET e3 (Some ''leave-room'') r u None
              (snd (GET e2 (Some ''join-room'') r u None
                (snd (GET e1 (Some ''join-room'') r u None st))))))"
proof -
  let ?a = "(newSessionId e1, \<lparr> userId = the u, roomId = the r, lastSeen = now e1 \<rparr>)"
  let ?b = "(newSessionId e2, \<lparr> userId = the u, roomId = the r, lastSeen = now e2 \<rparr>)"
  let ?st1 = "snd (join_room e1 (the r) (the u) st)"
  let ?st2 = "snd (join_room e2 (the r) (the u) ?st1)"
  let ?st3 = "snd (leave_room (the r) (the u) ?st2)"
  have G: "snd (GET e3 (Some ''leave-room'') r u None
              (snd (GET e2 (Some ''join-room'') r u None
                (snd (GET e1 (Some ''join-room'') r u None st))))) = ?st3"
    using assms(1,2) by (simp add: GET_def)
  have s1: "userSessions ?st1 = userSessions st @ [?a]"
    using assms(3) by (simp add: join_room_def Let_def update_fresh)
  have s2: "userSessions ?st2 = userSessions st @ [?a, ?b]"
    using assms(4,5) s1 by (simp add: join_room_def[of e2] Let_def update_fresh)
  have "?b \<in> set (userSessions ?st3)"
    using delete_first_session_keeps_later[of "snd ?a" "the u" "the r" ?b "userSessions st" "fst ?a"]
    by (simp add: leave_room_def s2)
  then have sess: "the u \<in> session_user_ids t (the r) ?st3"
    using assms(6) by (force simp: session_user_ids_def)
  have "the u \<notin> set (user_ids ?st3 (the r))"
    using remove_user_not_member[of "the u" "the r" "rooms ?st2"]
    by (simp add: user_ids_def leave_room_def)
  with sess show ?thesis unfolding G by simp
qed

text \<open>The scenario from the empty store: after join, rejoin and leave of \<open>u1\<close>,
  \<open>get-room-users\<close> answers with no user, and the session table holds the session
  of the second join, 1000 ms old at time 3000.\<close>

theorem rejoin_then_leave_keeps_a_session_witness:
  "truthy (Some ''r1'') \<and> truthy (Some ''u1'')
   \<and> newSessionId env_1000 \<noteq> newSessionId env_2000
   \<and> get_room_users ''r1'' store_after_rejoin_leave = (200, Users [])
   \<and> userSessions store_after_rejoin_leave =
       [(''session_2000_p7m1c5d8z'', \<lparr> userId = ''u1'', roomId = ''r1'', lastSeen = 2000 \<rparr>)]
   \<and> ''u1'' \<in> session_user_ids 3000 ''r1'' store_after_rejoin_leave"
proof -
  have h: "truthy (Some ''r1'')" "truthy (Some ''u1'')"
    "newSessionId env_1000 \<notin> fst ` set (userSessions empty_store)"
    "newSessionId env_2000 \<notin> fst ` set (userSessions empty_store)"
    "newSessionId env_1000 \<noteq> newSessionId env_2000"
    by (simp_all add: empty_store_def newSessionId_env_1000 newSessionId_env_2000)
  have h6: "\<not> (int 3000 - int (now env_2000) > int fiveMinutes)"
    by (simp add: env_2000_def fiveMinutes_def)
  have s: "userSessions store_after_rejoin_leave =
       [(''session_2000_p7m1c5d8z'', \<lparr> userId = ''u1'', roomId = ''r1'', lastSeen = 2000 \<rparr>)]"
    by (simp add: store_after_rejoin_leave_def GET_def join_room_def leave_room_def Let_def
        empty_store_def newSessionId_env_1000 newSessionId_env_2000)
       (simp add: env_1000_def env_2000_def)
  have g: "get_room_users ''r1'' store_after_rejoin_leave = (200, Users [])"
    by (simp add: store_after_rejoin_leave_def GET_def join_room_def leave_room_def Let_def
        empty_store_def get_room_users_def remove_user_def)
  show ?thesis
    using rejoin_then_leave_keeps_a_session[OF h h6, of env_3000] h(1,2,5) s g
    by (simp add: store_after_rejoin_leave_def)
qed

text \<open>The same leftover session harms a participant that is present: when the session
  of the first join expires, the sweep removes the participant from the room (and the
  room with it), although the session of the rejoin is 62 seconds old.\<close>

lemma show_nat_240000: "show_nat 240000 = ''240000''"
  by (simp add: show_nat.simps digit_char_def)

lemma newSessionId_env_240000: "newSessionId env_240000 = ''session_240000_p7m1c5d8z''"
  by (simp add: newSessionId_def env_240000_def show_nat_240000)

lemma stale_session_sweep_evicts_live_member:
  "get_room_users ''r1'' store_after_rejoin_sweep = (200, Users [])
   \<and> userSessions store_after_rejoin_sweep =
       [(''session_240000_p7m1c5d8z'', \<lparr> userId = ''u1'', roomId = ''r1'', lastSeen = 240000 \<rparr>)]"
  by (simp add: store_after_rejoin_sweep_def cleanupOldSessions_def GET_def join_room_def Let_def
        empty_store_def newSessionId_env_1000 newSessionId_env_240000
        get_room_users_def remove_user_def fiveMinutes_def AList.delete_eq)
     (simp add: env_1000_def env_240000_def)

section \<open>Facts about the transport\<close>

lemma trigger_fields [simp]:
  "this_userId (trigger ev s) = this_userId s"
  "this_sessionId (trigger ev s) = this_sessionId s"
  "this_roomId (trigger ev s) = this_roomId s"
  "lastKnownUsers (trigger ev s) = lastKnownUsers s"
  "emitted (trigger ev s) = emitted s @ [ev]"
  by (simp_all add: trigger_def)

lemma send_request_fields [simp]:
  "this_userId (send_request q s) = this_userId s"
  "this_sessionId (send_request q s) = this_sessionId s"
  "this_roomId (send_request q s) = this_roomId s"
  "lastKnownUsers (send_request q s) = lastKnownUsers s"
  "emitted (send_request q s) = emitted s"
  by (simp_all add: send_request_def)

lemma find_new_users_fields:
  "this_userId (find_new_users prev cur s) = this_userId s
   \<and> this_sessionId (find_new_users prev cur s) = this_sessionId s
   \<and> this_roomId (find_new_users prev cur s) = this_roomId s
   \<and> lastKnownUsers (find_new_users prev cur s) = lastKnownUsers s
   \<and> emitted (find_new_users prev cur s) =
       emitted s @ map UserConnected (filter (\<lambda>u. u \<notin> set prev \<and> Some u \<noteq> this_userId s) cur)"
  by (induction cur arbitrary: s) auto

lemma find_left_users_fields:
  "this_userId (find_left_users cur prev s) = this_userId s
   \<and> this_sessionId (find_left_users cur prev s) = this_sessionId s
   \<and> this_roomId (find_left_users cur prev s) = this_roomId s
   \<and> lastKnownUsers (find_left_users cur prev s) = lastKnownUsers s
   \<and> emitted (find_left_users cur prev s) =
       emitted s @ map UserLeave (filter (\<lambda>u. u \<notin> set cur \<and> Some u \<noteq> this_userId s) prev)"
  by (induction prev arbitrary: s) auto

lemma handleReconnect_fields:
  "this_userId (handleReconnect s) = this_userId s
   \<and> this_sessionId (handleReconnect s) = this_sessionId s
   \<and> this_roomId (handleReconnect s) = this_roomId s
   \<and> lastKnownUsers (handleReconnect s) = lastKnownUsers s
   \<and> (emitted (handleReconnect s) = emitted s @ [ReconnectFailed]
      \<or> emitted (handleReconnect s) = emitted s @ [ReconnectAttempt (reconnectAttempts s + 1)])"
  by (simp add: handleReconnect_def Let_def)

lemma set_new_Set [simp]: "set (new_Set xs) = set xs"
  by (induction xs rule: new_Set.induct) auto

lemma distinct_new_Set [simp]: "distinct (new_Set xs)"
  by (induction xs rule: new_Set.induct) auto

lemma replay_connected:
  "foldl apply_event acc (map UserConnected us) = acc @ us"
  by (induction us arbitrary: acc) auto

lemma replay_leave:
  "distinct acc \<Longrightarrow> distinct (foldl apply_event acc (map UserLeave us))
     \<and> set (foldl apply_event acc (map UserLeave us)) = set acc - set us"
  by (induction us arbitrary: acc) (auto simp: distinct_remove1)


lemma diff_replay:
  assumes "distinct acc" and "set acc = set old - self"
  shows "distinct (foldl apply_event acc
           (map UserConnected (filter (\<lambda>u. u \<notin> set (new_Set old) \<and> u \<notin> self) (new_Set fetched))
            @ map UserLeave (filter (\<lambda>u. u \<notin> set (new_Set fetched) \<and> u \<notin> self) (new_Set old))))
       \<and> set (foldl apply_event acc
           (map UserConnected (filter (\<lambda>u. u \<notin> set (new_Set old) \<and> u \<notin> self) (new_Set fetched))
            @ map UserLeave (filter (\<lambda>u. u \<notin> set (new_Set fetched) \<and> u \<notin> self) (new_Set old))))
         = set fetched - self"
proof -
  let ?new = "filter (\<lambda>u. u \<notin> set (new_Set old) \<and> u \<notin> self) (new_Set fetched)"
  let ?left = "filter (\<lambda>u. u \<notin> set (new_Set fetched) \<and> u \<notin> self) (new_Set old)"
  have d: "distinct (acc @ ?new)"
    using assms by auto
  have "foldl apply_event acc (map UserConnected ?new @ map UserLeave ?left)
          = foldl apply_event (acc @ ?new) (map UserLeave ?left)"
    by (simp add: replay_connected)
  moreover have "set (acc @ ?new) - set ?left = set fetched - self"
    using assms(2) by auto
  ultimately show ?thesis
    using replay_leave[OF d, of ?left] by simp
qed


lemma poll_tick_keeps:
  "this_userId (poll_tick s t) = this_userId s
   \<and> this_sessionId (poll_tick s t) = this_sessionId s
   \<and> this_roomId (poll_tick s t) = this_roomId s"
  by (cases t)
     (auto simp: poll_tick_def Let_def handleReconnect_fields find_new_users_fields
        find_left_users_fields split: option.splits)

lemma poll_tick_snapshot:
  "truthy (this_sessionId s) \<Longrightarrow> truthy (this_roomId s) \<Longrightarrow>
   lastKnownUsers (poll_tick s t) = last_snapshot (lastKnownUsers s) [t]"
  by (cases t)
     (auto simp: poll_tick_def Let_def handleReconnect_fields find_new_users_fields
        find_left_users_fields split: option.splits)

lemma poll_tick_replay:
  assumes "distinct acc" and "set acc = set (known s) - set_option (this_userId s)"
  shows "\<exists>evs. emitted (poll_tick s t) = emitted s @ evs
           \<and> distinct (foldl apply_event acc evs)
           \<and> set (foldl apply_event acc evs) = set (known (poll_tick s t)) - set_option (this_userId s)"
proof (cases "\<not> truthy (this_sessionId s) \<or> \<not> truthy (this_roomId s)")
  case True
  then have "poll_tick s t = s"
    by (simp add: poll_tick_def)
  with assms show ?thesis by simp
next
  case False
  note ok = False
  show ?thesis
  proof (cases t)
    case PingRejected
    then have p: "poll_tick s t = handleReconnect (send_request (PingReq (this_sessionId s)) s)"
      using ok by (simp add: poll_tick_def Let_def)
    have k: "known (poll_tick s t) = known s"
      by (simp add: p known_def handleReconnect_fields)
    from handleReconnect_fields[of "send_request (PingReq (this_sessionId s)) s"]
    consider "emitted (poll_tick s t) = emitted s @ [ReconnectFailed]"
      | "emitted (poll_tick s t) = emitted s @ [ReconnectAttempt (reconnectAttempts (send_request (PingReq (this_sessionId s)) s) + 1)]"
      unfolding p by auto
    then show ?thesis
      using assms k by cases auto
  next
    case FetchRejected
    let ?s2 = "send_request (GetRoomUsersReq (this_roomId s)) (send_request (PingReq (this_sessionId s)) s)"
    from FetchRejected have p: "poll_tick s t = handleReconnect ?s2"
      using ok by (simp add: poll_tick_def Let_def)
    have k: "known (poll_tick s t) = known s"
      by (simp add: p known_def handleReconnect_fields)
    from handleReconnect_fields[of ?s2]
    consider "emitted (poll_tick s t) = emitted s @ [ReconnectFailed]"
      | "emitted (poll_tick s t) = emitted s @ [ReconnectAttempt (reconnectAttempts ?s2 + 1)]"
      unfolding p by auto
    then show ?thesis
      using assms k by cases auto
  next
    case (Answer a)
    show ?thesis
    proof (cases a)
      case None
      with Answer ok have "emitted (poll_tick s t) = emitted s" "known (poll_tick s t) = known s"
        by (simp_all add: poll_tick_def Let_def known_def)
      with assms show ?thesis by simp
    next
      case (Some fetched)
      let ?self = "set_option (this_userId s)"
      have self: "\<And>u. (Some u \<noteq> this_userId s) = (u \<notin> ?self)"
        by (cases "this_userId s") auto
      have e: "emitted (poll_tick s t) = emitted s @
          (map UserConnected (filter (\<lambda>u. u \<notin> set (new_Set (known s)) \<and> u \<notin> ?self) (new_Set fetched))
            @ map UserLeave (filter (\<lambda>u. u \<notin> set (new_Set fetched) \<and> u \<notin> ?self) (new_Set (known s))))"
        using Answer Some ok
        by (simp add: poll_tick_def Let_def find_new_users_fields find_left_users_fields known_def self)
      have k: "known (poll_tick s t) = fetched"
        using Answer Some ok by (simp add: poll_tick_def Let_def known_def)
      show ?thesis
        using diff_replay[OF assms(1), of "known s" ?self fetched] assms(2) e k
        by simp
    qed
  qed
qed

lemma run_ticks_keeps:
  "this_userId (run_ticks s ts) = this_userId s
   \<and> this_sessionId (run_ticks s ts) = this_sessionId s
   \<and> this_roomId (run_ticks s ts) = this_roomId s"
  unfolding run_ticks_def
  by (induction ts arbitrary: s) (simp_all add: poll_tick_keeps)

lemma last_snapshot_step:
  "last_snapshot k (t # ts) = last_snapshot (last_snapshot k [t]) ts"
  by (cases "(k, t # ts)" rule: last_snapshot.cases) auto

lemma run_ticks_snapshot:
  "truthy (this_sessionId s) \<Longrightarrow> truthy (this_roomId s) \<Longrightarrow>
   lastKnownUsers (run_ticks s ts) = last_snapshot (lastKnownUsers s) ts"
  unfolding run_ticks_def
proof (induction ts arbitrary: s)
  case Nil
  then show ?case by simp
next
  case (Cons t ts)
  have "lastKnownUsers (foldl poll_tick (poll_tick s t) ts)
          = last_snapshot (lastKnownUsers (poll_tick s t)) ts"
    using Cons.prems by (intro Cons.IH) (simp_all add: poll_tick_keeps)
  then show ?case
    using Cons.prems last_snapshot_step[of "lastKnownUsers s" t ts]
    by (simp add: poll_tick_snapshot)
qed

lemma run_ticks_replay:
  assumes "distinct acc" and "set acc = set (known s) - set_option (this_userId s)"
  shows "\<exists>evs. emitted (run_ticks s ts) = emitted s @ evs
           \<and> distinct (foldl apply_event acc evs)
           \<and> set (foldl apply_event acc evs) = set (known (run_ticks s ts)) - set_option (this_userId s)"
  using assms unfolding run_ticks_def
proof (induction ts arbitrary: s acc)
  case Nil
  then show ?case by simp
next
  case (Cons t ts)
  from poll_tick_replay[OF Cons.prems, of t] obtain evs1 where
    e1: "emitted (poll_tick s t) = emitted s @ evs1"
    and d1: "distinct (foldl apply_event acc evs1)"
    and s1: "set (foldl apply_event acc evs1) = set (known (poll_tick s t)) - set_option (this_userId s)"
    by blast
  have u: "this_userId (poll_tick s t) = this_userId s"
    by (simp add: poll_tick_keeps)
  from Cons.IH[of "foldl apply_event acc evs1" "poll_tick s t"] d1 s1 u obtain evs2 where
    e2: "emitted (foldl poll_tick (poll_tick s t) ts) = emitted (poll_tick s t) @ evs2"
    and d2: "distinct (foldl apply_event (foldl apply_event acc evs1) evs2)"
    and s2: "set (foldl apply_event (foldl apply_event acc evs1) evs2)
               = set (known (foldl poll_tick (poll_tick s t) ts)) - set_option (this_userId s)"
    by auto
  show ?case
    by (rule exI[of _ "evs1 @ evs2"]) (simp add: e1 e2 d2 s2)
qed

text \<open>
  Claim C6, as the code has it. A transport that holds a session id and a room id and
  has no snapshot yet runs any sequence of poll ticks, answered or failed. The snapshot
  it keeps is the user list of the last answered tick; the \<open>user-connected\<close> and
  \<open>user-leave\<close> events of the ticks, replayed from no members, give every id of that
  snapshot except the local participant's id, each id once. A failed tick leaves the
  snapshot as it is and adds no membership event.
\<close>

theorem poll_diff_replays_snapshot_without_local_id:
  assumes "truthy (this_sessionId s)" and "truthy (this_roomId s)" and "lastKnownUsers s = None"
  shows "lastKnownUsers (run_ticks s ts) = last_snapshot None ts
       \<and> distinct (replay (poll_events s ts))
       \<and> set (replay (poll_events s ts)) =
           (case last_snapshot None ts of
              None \<Rightarrow> {}
            | Some fetched \<Rightarrow> set fetched - set_option (this_userId s))
       \<and> lastKnownUsers (poll_tick (run_ticks s ts) PingRejected) = lastKnownUsers (run_ticks s ts)
       \<and> lastKnownUsers (poll_tick (run_ticks s ts) FetchRejected) = lastKnownUsers (run_ticks s ts)
       \<and> replay (poll_events s (ts @ [PingRejected])) = replay (poll_events s ts)
       \<and> replay (poll_events s (ts @ [FetchRejected])) = replay (poll_events s ts)"
proof -
  have snap: "lastKnownUsers (run_ticks s ts) = last_snapshot None ts" for ts
    using run_ticks_snapshot[OF assms(1,2), of ts] assms(3) by simp
  have "set [] = set (known s) - set_option (this_userId s)"
    using assms(3) by (simp add: known_def)
  from run_ticks_replay[OF _ this, of ts] obtain evs where
    e: "emitted (run_ticks s ts) = emitted s @ evs"
    and d: "distinct (foldl apply_event [] evs)"
    and m: "set (foldl apply_event [] evs) = set (known (run_ticks s ts)) - set_option (this_userId s)"
    by auto
  have pe: "poll_events s ts = evs"
    by (simp add: poll_events_def e)
  have k: "set (known (run_ticks s ts)) - set_option (this_userId s) =
           (case last_snapshot None ts of None \<Rightarrow> {} | Some fetched \<Rightarrow> set fetched - set_option (this_userId s))"
    by (simp add: known_def snap split: option.splits)
  have tr: "truthy (this_sessionId (run_ticks s ts))" "truthy (this_roomId (run_ticks s ts))"
    using assms(1,2) by (simp_all add: run_ticks_keeps)
  have f1: "lastKnownUsers (poll_tick (run_ticks s ts) PingRejected) = lastKnownUsers (run_ticks s ts)"
    and f2: "lastKnownUsers (poll_tick (run_ticks s ts) FetchRejected) = lastKnownUsers (run_ticks s ts)"
    using poll_tick_snapshot[OF tr] by simp_all
  have rej: "replay (poll_events s (ts @ [t])) = replay (poll_events s ts)"
    if "t = PingRejected \<or> t = FetchRejected" for t
  proof -
    let ?s = "run_ticks s ts"
    have "\<exists>ev. (ev = ReconnectFailed \<or> (\<exists>n. ev = ReconnectAttempt n))
             \<and> emitted (poll_tick ?s t) = emitted ?s @ [ev]"
      using that tr handleReconnect_fields[of "send_request (PingReq (this_sessionId ?s)) ?s"]
        handleReconnect_fields[of "send_request (GetRoomUsersReq (this_roomId ?s)) (send_request (PingReq (this_sessionId ?s)) ?s)"]
      by (auto simp: poll_tick_def Let_def)
    then obtain ev where ev: "ev = ReconnectFailed \<or> (\<exists>n. ev = ReconnectAttempt n)"
      and em: "emitted (poll_tick ?s t) = emitted ?s @ [ev]"
      by blast
    have "poll_events s (ts @ [t]) = evs @ [ev]"
      by (simp add: poll_events_def run_ticks_def em[unfolded run_ticks_def] e[unfolded run_ticks_def])
    with ev show ?thesis
      by (auto simp: replay_def pe)
  qed
  show ?thesis
    using snap d m k pe f1 f2 rej by (simp add: replay_def)
qed


lemma socket_u1_joined_fields:
  "this_sessionId socket_u1_joined = Some ''session_1000_k3j9x0q2a''"
  "this_roomId socket_u1_joined = Some ''r1''"
  "this_userId socket_u1_joined = Some ''u1''"
  "lastKnownUsers socket_u1_joined = None"
  "pollingInterval socket_u1_joined"
  "emitted socket_u1_joined = [Connecting, Connect, JoinedRoom ''r1'']"
  "timeouts socket_u1_joined = []"
  "reconnectAttempts socket_u1_joined = 0"
  "maxReconnectAttempts socket_u1_joined = 5"
  "reconnectDelay socket_u1_joined = 1000"
  "requests socket_u1_joined = [JoinRoomReq ''r1'' ''u1'']"
  by (simp_all add: socket_u1_joined_def emit_join_room_response_def emit_join_room_call_def
      new_APISocket_def Let_def trigger_def send_request_def startPolling_def callbacks_def)

text \<open>The theorem on the joined transport of \<open>u1\<close>: the ticks answer \<open>[u1, u2]\<close>, fail,
  and answer \<open>[u1, u3]\<close>; the replay gives \<open>u3\<close>.\<close>

theorem poll_diff_replays_snapshot_without_local_id_witness:
  "truthy (this_sessionId socket_u1_joined) \<and> truthy (this_roomId socket_u1_joined)
   \<and> lastKnownUsers socket_u1_joined = None
   \<and> last_snapshot None [Answer (Some [''u1'', ''u2'']), FetchRejected, Answer (Some [''u1'', ''u3''])]
       = Some [''u1'', ''u3'']
   \<and> set (replay (poll_events socket_u1_joined
         [Answer (Some [''u1'', ''u2'']), FetchRejected, Answer (Some [''u1'', ''u3''])])) = {''u3''}
   \<and> lastKnownUsers (run_ticks socket_u1_joined
         [Answer (Some [''u1'', ''u2'']), FetchRejected, Answer (Some [''u1'', ''u3''])])
       = Some [''u1'', ''u3'']"
proof -
  have h: "truthy (this_sessionId socket_u1_joined)" "truthy (this_roomId socket_u1_joined)"
    "lastKnownUsers socket_u1_joined = None"
    by (simp_all add: socket_u1_joined_fields)
  show ?thesis
    using poll_diff_replays_snapshot_without_local_id[OF h,
        of "[Answer (Some [''u1'', ''u2'']), FetchRejected, Answer (Some [''u1'', ''u3''])]"] h
    by (simp add: socket_u1_joined_fields)
qed

text \<open>
  Claim C6 as the spec states it fails: on the transport of \<open>u1\<close>, the tick that fetches
  the snapshot \<open>[u1, u2]\<close> triggers \<open>user-connected(u2)\<close> only, so the replay gives
  \<open>[u2]\<close>, which is not the snapshot.
\<close>

theorem poll_diff_replay_counterexample:
  "poll_events socket_u1_joined [Answer (Some [''u1'', ''u2''])] = [UserConnected ''u2'']
   \<and> replay (poll_events socket_u1_joined [Answer (Some [''u1'', ''u2''])]) = [''u2'']
   \<and> set (replay (poll_events socket_u1_joined [Answer (Some [''u1'', ''u2''])]))
       \<noteq> set [''u1'', ''u2'']"
proof -
  have "poll_events socket_u1_joined [Answer (Some [''u1'', ''u2''])] = [UserConnected ''u2'']"
    by (simp add: poll_events_def run_ticks_def poll_tick_def Let_def socket_u1_joined_fields
        find_new_users_fields)
  then show ?thesis
    by (simp add: replay_def)
qed

lemma notify_existing_fields:
  "pollingInterval (notify_existing us s) = pollingInterval s
   \<and> isConnected (notify_existing us s) = isConnected s
   \<and> requests (notify_existing us s) = requests s
   \<and> this_userId (notify_existing us s) = this_userId s
   \<and> emitted (notify_existing us s) =
       emitted s @ map UserConnected (filter (\<lambda>u. Some u \<noteq> this_userId s) us)"
  by (induction us arbitrary: s) (auto simp: trigger_def)

text \<open>
  Claim C3, where the code departs from it. \<open>disconnect()\<close> clears the interval timer
  and leaves every scheduled reconnection callback pending. When such a callback runs
  after \<open>disconnect()\<close> has returned, the transport triggers \<open>connecting\<close> and sends
  \<open>join-room\<close> again; when that request succeeds, polling is on again and \<open>connect\<close>,
  \<open>joined-room\<close> and one \<open>user-connected\<close> per other user of the response are
  triggered.
\<close>

theorem reconnect_timeout_runs_after_disconnect:
  assumes "truthy (this_roomId s)" and "truthy (this_userId s)" and "i < length (timeouts s)"
    and "jd_success joinData" and "jd_roomUsers joinData = Some us"
  shows "\<not> pollingInterval (disconnect s)
       \<and> timeouts (disconnect s) = timeouts s
       \<and> emitted (timeout_fires i (disconnect s)) = emitted s @ [Disconnect ''manual'', Connecting]
       \<and> requests (timeout_fires i (disconnect s)) =
           requests s @ [LeaveRoomReq (this_roomId s) (this_userId s),
                         JoinRoomReq (the (this_roomId s)) (the (this_userId s))]
       \<and> pollingInterval
           (emit_join_room_response (the (this_roomId s)) (the (this_userId s)) (Resolved joinData)
              (timeout_fires i (disconnect s)))
       \<and> emitted
           (emit_join_room_response (the (this_roomId s)) (the (this_userId s)) (Resolved joinData)
              (timeout_fires i (disconnect s))) =
           emitted s @ [Disconnect ''manual'', Connecting, Connect, JoinedRoom (the (this_roomId s))]
             @ map UserConnected (filter (\<lambda>u. Some u \<noteq> this_userId s) us)"
proof -
  from assms(1,2) obtain r u where ru: "this_roomId s = Some r" "this_userId s = Some u"
    by (cases "this_roomId s"; cases "this_userId s") auto
  have d: "\<not> pollingInterval (disconnect s)" "timeouts (disconnect s) = timeouts s"
    "emitted (disconnect s) = emitted s @ [Disconnect ''manual'']"
    "requests (disconnect s) = requests s @ [LeaveRoomReq (this_roomId s) (this_userId s)]"
    "this_roomId (disconnect s) = this_roomId s" "this_userId (disconnect s) = this_userId s"
    using assms(1,2)
    by (simp_all add: disconnect_def Let_def trigger_def send_request_def stopPolling_def)
  have t: "emitted (timeout_fires i (disconnect s)) = emitted s @ [Disconnect ''manual'', Connecting]"
    "requests (timeout_fires i (disconnect s)) =
           requests s @ [LeaveRoomReq (this_roomId s) (this_userId s),
                         JoinRoomReq (the (this_roomId s)) (the (this_userId s))]"
    "this_userId (timeout_fires i (disconnect s)) = this_userId s"
    using assms(1,2,3) d
    by (simp_all add: timeout_fires_def Let_def emit_join_room_call_def trigger_def send_request_def ru)
  have r: "pollingInterval
           (emit_join_room_response (the (this_roomId s)) (the (this_userId s)) (Resolved joinData)
              (timeout_fires i (disconnect s)))"
    "emitted
           (emit_join_room_response (the (this_roomId s)) (the (this_userId s)) (Resolved joinData)
              (timeout_fires i (disconnect s))) =
           emitted s @ [Disconnect ''manual'', Connecting, Connect, JoinedRoom (the (this_roomId s))]
             @ map UserConnected (filter (\<lambda>u. Some u \<noteq> this_userId s) us)"
    using assms(4,5) t
    by (simp_all add: emit_join_room_response_def Let_def notify_existing_fields trigger_def
        startPolling_def)
  show ?thesis
    using d(1,2) t(1,2) r by simp
qed

lemma socket_u1_reconnecting_fields:
  "this_roomId socket_u1_reconnecting = Some ''r1''"
  "this_userId socket_u1_reconnecting = Some ''u1''"
  "timeouts socket_u1_reconnecting = [1000]"
  "emitted socket_u1_reconnecting = [Connecting, Connect, JoinedRoom ''r1'', ReconnectAttempt 1]"
  "requests socket_u1_reconnecting = [JoinRoomReq ''r1'' ''u1'', PingReq (Some ''session_1000_k3j9x0q2a'')]"
  by (simp_all add: socket_u1_reconnecting_def interval_fires_def poll_tick_def Let_def
      socket_u1_joined_fields handleReconnect_def trigger_def send_request_def)

text \<open>The run from a new transport: join, a poll tick whose ping is rejected,
  \<open>disconnect()\<close>, the scheduled callback, a successful join response.\<close>

theorem reconnect_timeout_runs_after_disconnect_witness:
  "truthy (this_roomId socket_u1_reconnecting) \<and> truthy (this_userId socket_u1_reconnecting)
   \<and> 0 < length (timeouts socket_u1_reconnecting)
   \<and> \<not> pollingInterval (disconnect socket_u1_reconnecting)
   \<and> pollingInterval socket_u1_after_disconnect
   \<and> emitted socket_u1_after_disconnect =
       [Connecting, Connect, JoinedRoom ''r1'', ReconnectAttempt 1,
        Disconnect ''manual'', Connecting, Connect, JoinedRoom ''r1'', UserConnected ''u2'']
   \<and> requests (timeout_fires 0 (disconnect socket_u1_reconnecting)) =
       [JoinRoomReq ''r1'' ''u1'', PingReq (Some ''session_1000_k3j9x0q2a''),
        LeaveRoomReq (Some ''r1'') (Some ''u1''), JoinRoomReq ''r1'' ''u1'']"
proof -
  have h: "truthy (this_roomId socket_u1_reconnecting)" "truthy (this_userId socket_u1_reconnecting)"
    "0 < length (timeouts socket_u1_reconnecting)"
    by (simp_all add: socket_u1_reconnecting_fields)
  have j: "jd_success \<lparr> jd_success = True, jd_sessionId = Some ''session_2000_p7m1c5d8z'',
                   jd_roomUsers = Some [''u1'', ''u2''], jd_error = None \<rparr>"
    "jd_roomUsers \<lparr> jd_success = True, jd_sessionId = Some ''session_2000_p7m1c5d8z'',
                   jd_roomUsers = Some [''u1'', ''u2''], jd_error = None \<rparr> = Some [''u1'', ''u2'']"
    by simp_all
  show ?thesis
    using reconnect_timeout_runs_after_disconnect[OF h j] h
    by (simp add: socket_u1_after_disconnect_def socket_u1_reconnecting_fields)
qed

lemma findIndex_splice_remove1:
  "(case findIndex (\<lambda>c. c = h) cs of None \<Rightarrow> cs | Some i \<Rightarrow> take i cs @ drop (Suc i) cs) = remove1 h cs"
  by (induction cs) (auto split: option.splits)

lemma count_list_remove1: "count_list (remove1 h cs) h = count_list cs h - 1"
  by (induction cs) auto

lemma callbacks_off:
  "callbacks (off name h s) name' = (if name' = name then remove1 h (callbacks s name) else callbacks s name')"
  using findIndex_splice_remove1[where h = h and cs = "callbacks s name"]
  by (auto simp: off_def callbacks_def split: option.splits)

lemma callbacks_on:
  "callbacks (on name h s) name' = (if name' = name then callbacks s name @ [h] else callbacks s name')"
  by (simp add: on_def callbacks_def)

lemma called_by_trigger_callbacks: "called_by_trigger ev s = callbacks s (event_name ev)"
  by (simp add: called_by_trigger_def trigger_def comp_def)

lemma callbacks_on_times:
  "callbacks ((on name h ^^ n) s) name = callbacks s name @ replicate n h"
  by (induction n) (simp_all add: callbacks_on replicate_append_same)

lemma callbacks_new_APISocket: "callbacks new_APISocket name = []"
  by (simp add: callbacks_def new_APISocket_def)

text \<open>
  Claim C10. When a callback is registered \<open>n\<close> times for an event, \<open>trigger\<close> calls it
  \<open>n\<close> times; one \<open>off\<close> removes the first of these registrations and no other, so
  the callback is then called \<open>n - 1\<close> times; one more \<open>on\<close> makes it \<open>n + 1\<close>. On a
  new transport, \<open>m\<close> calls of \<open>on\<close> with the same callback make \<open>trigger\<close> call it
  \<open>m\<close> times, and \<open>m - 1\<close> times after one \<open>off\<close>.
\<close>

theorem registry_counts_registrations:
  assumes "count_list (callbacks s (event_name ev)) h = n"
  shows "count_list (called_by_trigger ev s) h = n
       \<and> called_by_trigger ev (off (event_name ev) h s) = remove1 h (called_by_trigger ev s)
       \<and> count_list (called_by_trigger ev (off (event_name ev) h s)) h = n - 1
       \<and> count_list (called_by_trigger ev (on (event_name ev) h s)) h = n + 1
       \<and> called_by_trigger ev ((on (event_name ev) h ^^ m) new_APISocket) = replicate m h
       \<and> called_by_trigger ev (off (event_name ev) h ((on (event_name ev) h ^^ m) new_APISocket))
           = replicate (m - 1) h"
proof -
  have "remove1 h (replicate m h) = replicate (m - 1) h"
    by (cases m) simp_all
  then show ?thesis
    using assms
    by (simp add: called_by_trigger_callbacks callbacks_off callbacks_on count_list_remove1
        callbacks_on_times callbacks_new_APISocket)
qed

text \<open>The theorem for callback 7 registered twice for \<open>user-connected\<close>.\<close>

theorem registry_counts_registrations_witness:
  "count_list (callbacks (on ''user-connected'' 7 (on ''user-connected'' 7 new_APISocket)) (event_name (UserConnected ''u2''))) 7 = 2
   \<and> called_by_trigger (UserConnected ''u2'') (on ''user-connected'' 7 (on ''user-connected'' 7 new_APISocket)) = [7, 7]
   \<and> called_by_trigger (UserConnected ''u2'')
        (off ''user-connected'' 7 (on ''user-connected'' 7 (on ''user-connected'' 7 new_APISocket))) = [7]"
proof -
  have h: "count_list (callbacks (on ''user-connected'' 7 (on ''user-connected'' 7 new_APISocket)) (event_name (UserConnected ''u2''))) 7 = 2"
    by (simp add: callbacks_on callbacks_new_APISocket)
  have c: "called_by_trigger (UserConnected ''u2'') (on ''user-connected'' 7 (on ''user-connected'' 7 new_APISocket)) = [7, 7]"
    by (simp add: called_by_trigger_callbacks callbacks_on callbacks_new_APISocket)
  show ?thesis
    using registry_counts_registrations[OF h] h c by simp
qed

section \<open>Facts about the message channel manager\<close>

lemma js_string_lt_irrefl: "\<not> js_string_lt a a"
  by (induction a) auto

lemma js_string_lt_total: "a \<noteq> b \<Longrightarrow> js_string_lt a b \<or> js_string_lt b a"
proof (induction a b rule: js_string_lt.induct)
  case (4 x xs y ys)
  then show ?case
    by (auto simp: linorder_neq_iff[where 'a = nat])
qed auto

lemma js_string_lt_asym: "js_string_lt a b \<Longrightarrow> \<not> js_string_lt b a"
  by (induction a b rule: js_string_lt.induct) (auto split: if_splits)

lemma js_string_lt_trans: "js_string_lt a b \<Longrightarrow> js_string_lt b c \<Longrightarrow> js_string_lt a c"
proof (induction a arbitrary: b c)
  case Nil
  then show ?case by (cases b; cases c) auto
next
  case (Cons x xs)
  from Cons.prems obtain y ys where b: "b = y # ys"
    by (cases b) auto
  from Cons.prems b obtain z zs where c: "c = z # zs"
    by (cases c) auto
  consider "(of_char x :: nat) < of_char y" | "of_char x = (of_char y :: nat)" "js_string_lt xs ys"
    using Cons.prems(1) b by (auto split: if_splits)
  then show ?case
  proof cases
    case 1
    moreover have "(of_char y :: nat) \<le> of_char z"
      using Cons.prems(2) b c by (auto split: if_splits)
    ultimately show ?thesis
      using c by auto
  next
    case 2
    consider "(of_char y :: nat) < of_char z" | "of_char y = (of_char z :: nat)" "js_string_lt ys zs"
      using Cons.prems(2) b c by (auto split: if_splits)
    then show ?thesis
    proof cases
      case 1
      with 2 c show ?thesis by auto
    next
      case 2
      note yz = this
      have "js_string_lt xs zs"
        using Cons.IH[OF \<open>js_string_lt xs ys\<close> yz(2)] .
      with \<open>of_char x = (of_char y :: nat)\<close> yz(1) c show ?thesis by auto
    qed
  qed
qed

text \<open>
  Claim C5. For two distinct participant ids, exactly one of the two sides computes
  \<open>shouldInitiate = true\<close>, and it is the side whose own id is the greater one in the
  order \<open>js_string_lt\<close> (irreflexive, asymmetric, transitive and total by the lemmas
  above): both sides agree on the initiator without communication.
\<close>

theorem initiator_election:
  assumes "a \<noteq> b"
  shows "(shouldInitiate a b \<and> \<not> shouldInitiate b a \<and> js_string_lt b a)
       \<or> (shouldInitiate b a \<and> \<not> shouldInitiate a b \<and> js_string_lt a b)"
  using js_string_lt_total[OF assms] js_string_lt_asym[of a b] js_string_lt_asym[of b a]
  by (auto simp: shouldInitiate_def)

lemma bob_alice: "js_string_lt ''alice'' ''bob''"
  by simp

text \<open>For \<open>alice\<close> and \<open>bob\<close>, the side of \<open>bob\<close> initiates and the side of
  \<open>alice\<close> does not.\<close>

theorem initiator_election_witness:
  "''alice'' \<noteq> ''bob'' \<and> shouldInitiate ''bob'' ''alice'' \<and> \<not> shouldInitiate ''alice'' ''bob''"
  using initiator_election[of "''alice''" "''bob''"]
  by (simp add: shouldInitiate_def)

lemma addMessage_cases:
  "addMessage c myId m prev = prev \<or>
   (\<exists>x. addMessage c myId m prev = prev @ [x] \<and> msg_id x \<notin> set (map msg_id prev))"
  by (auto simp: addMessage_def Let_def list_ex_iff)

lemma addMessage_distinct:
  "distinct (map msg_id prev) \<Longrightarrow> distinct (map msg_id (addMessage c myId m prev))"
  using addMessage_cases[of c myId m prev] by auto

lemma addMessage_has_id:
  "truthy (m_id m) \<Longrightarrow> the (m_id m) \<in> set (map msg_id (addMessage c myId m prev))"
  by (force simp: addMessage_def Let_def list_ex_iff)

lemma addMessage_known_id:
  "truthy (m_id m) \<Longrightarrow> the (m_id m) \<in> set (map msg_id prev) \<Longrightarrow> addMessage c myId m prev = prev"
  by (auto simp: addMessage_def Let_def list_ex_iff)

lemma distinct_count_one:
  "distinct (map f xs) \<Longrightarrow> k \<in> set (map f xs) \<Longrightarrow> length (filter (\<lambda>x. f x = k) xs) = 1"
proof (induction xs)
  case Nil
  then show ?case by simp
next
  case (Cons x xs)
  show ?case
  proof (cases "f x = k")
    case True
    with Cons.prems have "k \<notin> f ` set xs"
      by simp
    then have "filter (\<lambda>x. f x = k) xs = []"
      by (force simp: filter_empty_conv)
    with True show ?thesis by simp
  next
    case False
    with Cons show ?thesis by auto
  qed
qed

text \<open>
  Claim C9. Two well-formed chat payloads with the same message id are delivered one
  after the other to \<open>handleIncomingMessage\<close>, on a log whose ids are distinct (every
  log \<open>addMessage\<close> builds is, by \<open>addMessage_distinct\<close>): the second delivery leaves
  the log as the first one made it, and the log has exactly one entry with that id.
\<close>

theorem incoming_message_deduplicated:
  assumes "m_type d1 = Some ''chat-message''" and "m_type d2 = Some ''chat-message''"
    and "truthy (m_senderId d1)" and "truthy (m_text d1)" and "truthy (m_id d1)"
    and "truthy (m_senderId d2)" and "truthy (m_text d2)"
    and "m_id d2 = m_id d1"
    and "distinct (map msg_id prev)"
  shows "handleIncomingMessage c2 myId (Parsed d2) (handleIncomingMessage c1 myId (Parsed d1) prev)
           = handleIncomingMessage c1 myId (Parsed d1) prev
       \<and> length (filter (\<lambda>msg. msg_id msg = the (m_id d1))
            (handleIncomingMessage c2 myId (Parsed d2) (handleIncomingMessage c1 myId (Parsed d1) prev))) = 1
       \<and> distinct (map msg_id
            (handleIncomingMessage c2 myId (Parsed d2) (handleIncomingMessage c1 myId (Parsed d1) prev)))"
proof -
  let ?log1 = "addMessage c1 myId d1 prev"
  have h1: "handleIncomingMessage c1 myId (Parsed d1) prev = ?log1"
    using assms(1,3,4,5) by (simp add: handleIncomingMessage_def)
  have h2: "handleIncomingMessage c2 myId (Parsed d2) ?log1 = addMessage c2 myId d2 ?log1"
    using assms(2,5,6,7,8) by (simp add: handleIncomingMessage_def)
  have mem: "the (m_id d1) \<in> set (map msg_id ?log1)"
    using assms(5) by (rule addMessage_has_id)
  have same: "addMessage c2 myId d2 ?log1 = ?log1"
    using addMessage_known_id[of d2 ?log1 c2 myId] assms(5,8) mem by simp
  have d: "distinct (map msg_id ?log1)"
    using assms(9) by (rule addMessage_distinct)
  show ?thesis
    using distinct_count_one[OF d mem] d by (simp add: h1 h2 same)
qed


lemma send_to_channels_result:
  "send_to_channels m chans =
     (length (filter (\<lambda>(p, ch). readyState ch = ChannelOpen \<and> \<not> send_throws ch) chans),
      map (\<lambda>(p, ch). if readyState ch = ChannelOpen \<and> \<not> send_throws ch
                      then (p, ch\<lparr> written := written ch @ [m] \<rparr>) else (p, ch)) chans)"
  by (induction chans) (auto simp: Let_def split: prod.splits)







lemma sendMessage_nonempty:
  assumes "trim messageText \<noteq> []"
  shows "sendMessage c myId messageText st =
     (0 < length (filter (\<lambda>(p, ch). readyState ch = ChannelOpen \<and> \<not> send_throws ch) (dataChannels st)),
      \<lparr> messages = addMessage c myId (outgoing_message c myId messageText) (messages st),
        dataChannels = map (\<lambda>(p, ch). if readyState ch = ChannelOpen \<and> \<not> send_throws ch
                      then (p, ch\<lparr> written := written ch @ [outgoing_message c myId messageText] \<rparr>)
                      else (p, ch)) (dataChannels st) \<rparr>)"
proof -
  have "messageText \<noteq> []"
    using assms by (auto simp: trim_def)
  with assms show ?thesis
    by (simp add: sendMessage_def Let_def send_to_channels_result)
qed





text \<open>With an open channel to \<open>u2\<close> and a closing one to \<open>u3\<close>, the result is
  \<open>true\<close> and only the open channel is written to.\<close>

lemma sendMessage_open_channel:
  "fst (sendMessage clock_1000 ''u1'' '' hi '' chat_with_open_channel) = True
   \<and> map (\<lambda>(p, ch). (p, map m_text (written ch)))
        (dataChannels (snd (sendMessage clock_1000 ''u1'' '' hi '' chat_with_open_channel)))
      = [(''u2'', [Some ''hi'']), (''u3'', [])]"
proof -
  have t: "trim '' hi '' = ''hi''"
    by (simp add: trim_def is_space_def)
  show ?thesis
    by (simp add: sendMessage_nonempty t chat_with_open_channel_def outgoing_message_def)
qed

text \<open>The same payload of \<open>u2\<close> delivered twice to the empty log of \<open>u1\<close>.\<close>

theorem incoming_message_deduplicated_witness:
  "m_type hello_from_u2 = Some ''chat-message''
   \<and> truthy (m_senderId hello_from_u2) \<and> truthy (m_text hello_from_u2) \<and> truthy (m_id hello_from_u2)
   \<and> distinct (map msg_id [])
   \<and> handleIncomingMessage clock_1000 ''u1'' (Parsed hello_from_u2)
        (handleIncomingMessage clock_1000 ''u1'' (Parsed hello_from_u2) [])
      = [\<lparr> msg_id = ''u2-1000-0.25'', msg_text = Some ''hello'', msg_senderId = Some ''u2'',
           msg_senderName = Some ''u2'', msg_timestamp = ''2024-01-01T00:00:00.000Z'',
           msg_isOwn = False \<rparr>]"
proof -
  have h: "m_type hello_from_u2 = Some ''chat-message''"
    "truthy (m_senderId hello_from_u2)" "truthy (m_text hello_from_u2)" "truthy (m_id hello_from_u2)"
    by (simp_all add: hello_from_u2_def)
  have d: "distinct (map msg_id [])"
    by simp
  have one: "handleIncomingMessage clock_1000 ''u1'' (Parsed hello_from_u2) []
      = [\<lparr> msg_id = ''u2-1000-0.25'', msg_text = Some ''hello'', msg_senderId = Some ''u2'',
           msg_senderName = Some ''u2'', msg_timestamp = ''2024-01-01T00:00:00.000Z'',
           msg_isOwn = False \<rparr>]"
    by (simp add: handleIncomingMessage_def addMessage_def hello_from_u2_def Let_def)
  show ?thesis
    using incoming_message_deduplicated[OF h(1) h(1) h(2,3,4) h(2,3) refl d, of clock_1000 "''u1''" clock_1000]
      h one
    by simp
qed


section \<open>Facts about the connection orchestrator\<close>

lemma room_step_distinct:
  "distinct (map fst (users s)) \<and> distinct (map fst (players s))
   \<Longrightarrow> distinct (map fst (users (room_step s ev))) \<and> distinct (map fst (players (room_step s ev)))"
  by (cases ev)
     (auto simp: handleUserConnected_def handleIncomingCall_def call_on_stream_def
        call_on_close_def call_on_error_def handleUserLeave_def Let_def
        AList.distinct_update AList.distinct_delete)

lemma foldl_room_step_distinct:
  "distinct (map fst (users s)) \<and> distinct (map fst (players s))
   \<Longrightarrow> distinct (map fst (users (foldl room_step s evs)))
     \<and> distinct (map fst (players (foldl room_step s evs)))"
proof (induction evs arbitrary: s)
  case Nil
  then show ?case by simp
next
  case (Cons ev evs)
  from room_step_distinct[OF Cons.prems] show ?case
    by (simp add: Cons.IH)
qed

text \<open>
  Claim C1, as the code has it. \<open>handleUserConnected\<close> places one more outgoing call to
  the announced id in every state, and changes neither \<open>users\<close> nor \<open>players\<close>: it
  does not look for an existing entry. What is unique per remote id is the entry: after
  any run of events, \<open>users\<close> and \<open>players\<close> hold at most one entry per remote id.
\<close>

theorem user_connected_always_calls:
  "calls (handleUserConnected u s) = calls s @ [\<lparr> call_peer = u, outgoing = True, call_closed = False \<rparr>]
   \<and> users (handleUserConnected u s) = users s
   \<and> players (handleUserConnected u s) = players s
   \<and> length (outgoing_calls_to u (handleUserConnected u s)) = length (outgoing_calls_to u s) + 1
   \<and> distinct (map fst (users (run_room evs)))
   \<and> distinct (map fst (players (run_room evs)))"
proof -
  have "distinct (map fst (users initial_room)) \<and> distinct (map fst (players initial_room))"
    by (simp add: initial_room_def)
  from foldl_room_step_distinct[OF this, of evs] show ?thesis
    by (simp add: handleUserConnected_def outgoing_calls_to_def run_room_def)
qed

text \<open>The theorem in a state where \<open>users\<close> has an entry for \<open>u1\<close>.\<close>

theorem user_connected_always_calls_witness:
  "calls (handleUserConnected ''u1'' (run_room [OnUserConnected ''u1'', OnStream 0 5])) =
     [\<lparr> call_peer = ''u1'', outgoing = True, call_closed = False \<rparr>,
      \<lparr> call_peer = ''u1'', outgoing = True, call_closed = False \<rparr>]
   \<and> users (handleUserConnected ''u1'' (run_room [OnUserConnected ''u1'', OnStream 0 5])) = [(''u1'', 0)]"
proof -
  have r: "run_room [OnUserConnected ''u1'', OnStream 0 5] =
     \<lparr> calls = [\<lparr> call_peer = ''u1'', outgoing = True, call_closed = False \<rparr>],
       users = [(''u1'', 0)],
       players = [(''u1'', \<lparr> url = 5, muted = False, playing = True, audioEnabled = True \<rparr>)] \<rparr>"
    by (simp add: run_room_def initial_room_def handleUserConnected_def call_on_stream_def)
  show ?thesis
    using user_connected_always_calls[of "''u1''" "run_room [OnUserConnected ''u1'', OnStream 0 5]" "[]"]
    by (simp add: r)
qed

text \<open>
  Claim C1 as the spec states it fails. After \<open>user-connected(u1)\<close> and the stream of
  that call, \<open>users\<close> has an entry for \<open>u1\<close>; a second \<open>user-connected(u1)\<close> is not
  ignored: it changes the state, and two outgoing calls to \<open>u1\<close> exist. The transport
  delivers such a pair: when \<open>u2\<close> joins a room that holds \<open>u1\<close>, the join response and
  the first poll tick (which has no snapshot to compare with) each trigger
  \<open>user-connected(u1)\<close>, and the component places two calls.
\<close>

theorem duplicate_user_connected_counterexample:
  "map_of (users (run_room [OnUserConnected ''u1'', OnStream 0 5])) ''u1'' = Some 0
   \<and> handleUserConnected ''u1'' (run_room [OnUserConnected ''u1'', OnStream 0 5])
       \<noteq> run_room [OnUserConnected ''u1'', OnStream 0 5]
   \<and> length (outgoing_calls_to ''u1''
        (handleUserConnected ''u1'' (run_room [OnUserConnected ''u1'', OnStream 0 5]))) = 2
   \<and> emitted socket_u2_first_tick =
       [Connecting, Connect, JoinedRoom ''r1'', UserConnected ''u1'', UserConnected ''u1'']
   \<and> length (outgoing_calls_to ''u1'' (foldl deliver initial_room (emitted socket_u2_first_tick))) = 2"
proof -
  have r: "run_room [OnUserConnected ''u1'', OnStream 0 5] =
     \<lparr> calls = [\<lparr> call_peer = ''u1'', outgoing = True, call_closed = False \<rparr>],
       users = [(''u1'', 0)],
       players = [(''u1'', \<lparr> url = 5, muted = False, playing = True, audioEnabled = True \<rparr>)] \<rparr>"
    by (simp add: run_room_def initial_room_def handleUserConnected_def call_on_stream_def)
  have e: "emitted socket_u2_first_tick =
       [Connecting, Connect, JoinedRoom ''r1'', UserConnected ''u1'', UserConnected ''u1'']"
    by (simp add: socket_u2_first_tick_def interval_fires_def poll_tick_def
        emit_join_room_response_def emit_join_room_call_def new_APISocket_def Let_def
        trigger_def send_request_def startPolling_def callbacks_def)
  show ?thesis
    by (simp add: r e handleUserConnected_def outgoing_calls_to_def initial_room_def)
qed

end
